theory Spec2Isabelle
  imports Complex_Main "HOL-Library.Char_ord" "HOL-Library.List_Lexorder"
begin

section \<open>Values, errors and the data file\<close>

text \<open>
  The server keeps everything in one file, \<^verbatim>\<open>data/players.json\<close>, that every handler reads
  with \<^verbatim>\<open>JSON.parse(fs.readFileSync(dataFile))\<close>. A file that parses is represented by
  the value \<^verbatim>\<open>JSON.parse\<close> returns for it; the text itself, with its layout, is not
  represented. Finite numbers are exact rationals: every decimal of a JSON text and every
  value the scraper writes (a multiple of one tenth) is one; the rounding of IEEE doubles
  is not part of the model, and \<^verbatim>\<open>-0\<close> is \<^verbatim>\<open>0\<close>. A number of the text beyond the range of
  a double (\<^verbatim>\<open>1e400\<close>, \<^verbatim>\<open>-1e400\<close>) parses to \<^verbatim>\<open>Infinity\<close> or \<^verbatim>\<open>-Infinity\<close>. An object is
  the list of its properties in insertion order.
\<close>

datatype json =
    JNull
  | JBool bool
  | JNum rat
  | JPosInf
  | JNegInf
  | JStr string
  | JArr "json list"
  | JObj "(string \<times> json) list"

text \<open>
  The exceptions the code can raise (\<open>SystemError\<close> is a failed \<^verbatim>\<open>fs\<close> call). The string
  is the \<^verbatim>\<open>message\<close> property, whose text belongs to the JavaScript engine and is
  abbreviated here; only the handlers' 500 answers carry it.
\<close>

datatype error = SyntaxError string | TypeError string | RangeError string | SystemError string

fun message :: "error \<Rightarrow> string" where
  "message (SyntaxError m) = m"
| "message (TypeError m) = m"
| "message (RangeError m) = m"
| "message (SystemError m) = m"

text \<open>
  The states of the data file: it does not exist; it exists and \<^verbatim>\<open>JSON.parse\<close> rejects its
  text with the given message; it exists and parses to the given value.
\<close>

datatype datafile = Absent | Unparseable string | Parsed json

text \<open>
  Property read \<^verbatim>\<open>v.k\<close> for the property names the code uses (\<^verbatim>\<open>players\<close>, \<^verbatim>\<open>sport\<close>,
  \<^verbatim>\<open>id\<close>), none of which is defined on a prototype: \<^verbatim>\<open>null\<close> raises a TypeError, an object
  gives its own property, every other value gives \<^verbatim>\<open>undefined\<close> (\<open>None\<close>).
\<close>

fun get_prop :: "json \<Rightarrow> string \<Rightarrow> error + json option" where
  "get_prop JNull k = Inl (TypeError (''Cannot read properties of null (reading '' @ k @ '')''))"
| "get_prop (JObj kvs) k = Inr (map_of kvs k)"
| "get_prop (JBool b) k = Inr None"
| "get_prop (JNum n) k = Inr None"
| "get_prop JPosInf k = Inr None"
| "get_prop JNegInf k = Inr None"
| "get_prop (JStr s) k = Inr None"
| "get_prop (JArr xs) k = Inr None"

text \<open>Property write \<^verbatim>\<open>o.k = v\<close> on an object: an existing property keeps its place.\<close>

fun put_assoc :: "string \<Rightarrow> json \<Rightarrow> (string \<times> json) list \<Rightarrow> (string \<times> json) list" where
  "put_assoc k v [] = [(k, v)]"
| "put_assoc k v ((k', v') # kvs) = (if k' = k then (k, v) # kvs else (k', v') # put_assoc k v kvs)"

fun put_prop :: "json \<Rightarrow> string \<Rightarrow> json \<Rightarrow> json" where
  "put_prop (JObj kvs) k v = JObj (put_assoc k v kvs)"
| "put_prop d k v = d"

text \<open>
  What \<^verbatim>\<open>JSON.parse\<close> returns for the text \<^verbatim>\<open>JSON.stringify(v, null, 2)\<close>: the value \<open>v\<close>
  with \<^verbatim>\<open>null\<close> for every \<^verbatim>\<open>Infinity\<close> and \<^verbatim>\<open>-Infinity\<close>, which JSON cannot write.
\<close>

primrec written :: "json \<Rightarrow> json" where
  "written JNull = JNull"
| "written (JBool b) = JBool b"
| "written (JNum n) = JNum n"
| "written JPosInf = JNull"
| "written JNegInf = JNull"
| "written (JStr s) = JStr s"
| "written (JArr xs) = JArr (map written xs)"
| "written (JObj kvs) = JObj (map (map_prod id written) kvs)"

text \<open>A value all of whose numbers are finite.\<close>

primrec in_range :: "json \<Rightarrow> bool" where
  "in_range JNull = True"
| "in_range (JBool b) = True"
| "in_range (JNum n) = True"
| "in_range JPosInf = False"
| "in_range JNegInf = False"
| "in_range (JStr s) = True"
| "in_range (JArr xs) = list_all in_range xs"
| "in_range (JObj kvs) = list_all (pred_prod (\<lambda>k. True) in_range) kvs"

text \<open>
  What the storage does with the one write of a run, \<^verbatim>\<open>fs.writeFileSync(dataFile, text)\<close>,
  which opens the file for writing (truncating it), writes the text and closes it: the
  write succeeds; or the file cannot be opened and the call raises with the file
  untouched; or the call raises after the file was truncated, which leaves the empty file
  or a proper prefix of the text. The text is that of an object, so the empty text and
  every proper prefix of it lack the closing brace and do not parse: \<^verbatim>\<open>JSON.parse\<close> rejects
  what is left, with the message given.
\<close>

datatype write_outcome = Written | NotOpened error | Interrupted error string

section \<open>The built-in Date\<close>

text \<open>
  \<^verbatim>\<open>generateHistoricalData\<close> uses \<^verbatim>\<open>new Date()\<close>, \<^verbatim>\<open>getDate\<close>, \<^verbatim>\<open>setDate\<close> and
  \<^verbatim>\<open>toISOString\<close>. They are modelled after the ECMAScript definitions (section
  "Date Objects"): a time value is a number of milliseconds since 1970-01-01T00:00:00Z,
  \<open>None\<close> is the invalid date (NaN).
\<close>

definition msPerDay :: int where
  "msPerDay = 86400000"

definition Day :: "int \<Rightarrow> int" where
  "Day t = t div msPerDay"

definition TimeWithinDay :: "int \<Rightarrow> int" where
  "TimeWithinDay t = t mod msPerDay"

definition DaysInYear :: "int \<Rightarrow> int" where
  "DaysInYear y =
     (if y mod 4 \<noteq> 0 then 365
      else if y mod 100 \<noteq> 0 then 366
      else if y mod 400 \<noteq> 0 then 365
      else 366)"

definition DayFromYear :: "int \<Rightarrow> int" where
  "DayFromYear y =
     365 * (y - 1970) + (y - 1969) div 4 - (y - 1901) div 100 + (y - 1601) div 400"

definition TimeFromYear :: "int \<Rightarrow> int" where
  "TimeFromYear y = msPerDay * DayFromYear y"

text \<open>
  \<^verbatim>\<open>YearFromTime(t)\<close> is the largest \<open>y\<close> with \<^verbatim>\<open>TimeFromYear(y) \<le> t\<close>. A year has 365 or
  366 days, so \<open>y\<close> lies between \<open>1970 + d div 366\<close> and \<open>1970 + d div 365\<close> for the day
  number \<open>d\<close>; the search looks at these candidates, from the largest down
  (lemma \<open>YearFromTime_largest\<close> below).
\<close>

definition YearFromTime :: "int \<Rightarrow> int" where
  "YearFromTime t =
     (let d = Day t;
          lo = 1970 + min (d div 365) (d div 366);
          hi = 1970 + max (d div 365) (d div 366)
      in case find (\<lambda>y. DayFromYear y \<le> d) (rev [lo..hi]) of
           Some y \<Rightarrow> y
         | None \<Rightarrow> lo)"

definition InLeapYear :: "int \<Rightarrow> int" where
  "InLeapYear t = (if DaysInYear (YearFromTime t) = 366 then 1 else 0)"

definition DayWithinYear :: "int \<Rightarrow> int" where
  "DayWithinYear t = Day t - DayFromYear (YearFromTime t)"

text \<open>The day of the year on which month \<open>m\<close> (0 = January) begins; \<open>leap\<close> is 0 or 1.\<close>

definition month_start :: "int \<Rightarrow> int \<Rightarrow> int" where
  "month_start leap m =
     (if m = 0 then 0
      else if m = 1 then 31
      else if m = 2 then 59 + leap
      else if m = 3 then 90 + leap
      else if m = 4 then 120 + leap
      else if m = 5 then 151 + leap
      else if m = 6 then 181 + leap
      else if m = 7 then 212 + leap
      else if m = 8 then 243 + leap
      else if m = 9 then 273 + leap
      else if m = 10 then 304 + leap
      else 334 + leap)"

definition MonthFromTime :: "int \<Rightarrow> int" where
  "MonthFromTime t =
     (let d = DayWithinYear t; leap = InLeapYear t
      in if d < 31 then 0
         else if d < 59 + leap then 1
         else if d < 90 + leap then 2
         else if d < 120 + leap then 3
         else if d < 151 + leap then 4
         else if d < 181 + leap then 5
         else if d < 212 + leap then 6
         else if d < 243 + leap then 7
         else if d < 273 + leap then 8
         else if d < 304 + leap then 9
         else if d < 334 + leap then 10
         else 11)"

definition DateFromTime :: "int \<Rightarrow> int" where
  "DateFromTime t = DayWithinYear t - month_start (InLeapYear t) (MonthFromTime t) + 1"

definition HourFromTime :: "int \<Rightarrow> int" where
  "HourFromTime t = (t div 3600000) mod 24"

definition MinFromTime :: "int \<Rightarrow> int" where
  "MinFromTime t = (t div 60000) mod 60"

definition SecFromTime :: "int \<Rightarrow> int" where
  "SecFromTime t = (t div 1000) mod 60"

definition msFromTime :: "int \<Rightarrow> int" where
  "msFromTime t = t mod 1000"

text \<open>
  \<^verbatim>\<open>MakeDay(year, month, date)\<close>: the day number of the first of the month (months
  beyond 0..11 carry into the year), plus \<open>date - 1\<close>; the date may be zero or negative.
\<close>

definition MakeDay :: "int \<Rightarrow> int \<Rightarrow> int \<Rightarrow> int" where
  "MakeDay year month dt =
     (let ym = year + month div 12;
          mn = month mod 12;
          leap = (if DaysInYear ym = 366 then 1 else 0)
      in DayFromYear ym + month_start leap mn + dt - 1)"

definition MakeDate :: "int \<Rightarrow> int \<Rightarrow> int" where
  "MakeDate day time = day * msPerDay + time"

definition TimeClip :: "int \<Rightarrow> int option" where
  "TimeClip t = (if \<bar>t\<bar> > 8640000000000000 then None else Some t)"

text \<open>
  What a run observes of its environment: the time value of its \<open>k\<close>-th \<^verbatim>\<open>new Date()\<close>,
  the result of its \<open>k\<close>-th \<^verbatim>\<open>Math.random()\<close>, the host's time zone,
  \<^verbatim>\<open>LocalTZA(t, isUTC)\<close>: the offset of local time from UTC in milliseconds at the UTC time
  \<open>t\<close> (\<open>isUTC\<close>) or at the local time \<open>t\<close>, and what the storage does with its write.
\<close>

record env =
  clock :: "nat \<Rightarrow> int"
  random :: "nat \<Rightarrow> rat"
  LocalTZA :: "int \<Rightarrow> bool \<Rightarrow> int"
  storage :: write_outcome

definition LocalTime :: "env \<Rightarrow> int \<Rightarrow> int" where
  "LocalTime e t = t + LocalTZA e t True"

definition UTC :: "env \<Rightarrow> int \<Rightarrow> int" where
  "UTC e t = t - LocalTZA e t False"

definition getDate :: "env \<Rightarrow> int \<Rightarrow> int" where
  "getDate e t = DateFromTime (LocalTime e t)"

definition setDate :: "env \<Rightarrow> int \<Rightarrow> int \<Rightarrow> int option" where
  "setDate e t dt =
     (let t' = LocalTime e t;
          newDate = MakeDate (MakeDay (YearFromTime t') (MonthFromTime t') dt) (TimeWithinDay t')
      in TimeClip (UTC e newDate))"

text \<open>Decimal digits, padded with zeros to a width.\<close>

fun digits :: "nat \<Rightarrow> nat \<Rightarrow> string" where
  "digits 0 n = []"
| "digits (Suc w) n = digits w (n div 10) @ [''0123456789'' ! (n mod 10)]"

definition iso_year :: "int \<Rightarrow> string" where
  "iso_year y =
     (if 0 \<le> y \<and> y \<le> 9999 then digits 4 (nat y)
      else (if y < 0 then ''-'' else ''+'') @ digits 6 (nat \<bar>y\<bar>))"

definition iso_string :: "int \<Rightarrow> string" where
  "iso_string t =
     iso_year (YearFromTime t) @ ''-'' @ digits 2 (nat (MonthFromTime t + 1)) @ ''-''
     @ digits 2 (nat (DateFromTime t)) @ ''T'' @ digits 2 (nat (HourFromTime t)) @ '':''
     @ digits 2 (nat (MinFromTime t)) @ '':'' @ digits 2 (nat (SecFromTime t)) @ ''.''
     @ digits 3 (nat (msFromTime t)) @ ''Z''"

text \<open>\<^verbatim>\<open>toISOString\<close> raises a RangeError on the invalid date.\<close>

definition toISOString :: "int option \<Rightarrow> error + string" where
  "toISOString tv =
     (case tv of
        None \<Rightarrow> Inl (RangeError ''Invalid time value'')
      | Some t \<Rightarrow> Inr (iso_string t))"

text \<open>\<^verbatim>\<open>s.split('T')[0]\<close>: the text before the first \<^verbatim>\<open>T\<close>.\<close>

definition split_T_first :: "string \<Rightarrow> string" where
  "split_T_first s = takeWhile (\<lambda>c. c \<noteq> CHR ''T'') s"

section \<open>The scraper: \<^verbatim>\<open>controllers/nbaScraper.js\<close>\<close>

text \<open>
  \<^verbatim>\<open>parseFloat(x.toFixed(1))\<close>: \<^verbatim>\<open>toFixed\<close> takes the integer \<open>n\<close> with \<open>n / 10\<close> nearest to
  the absolute value, the larger one of two, and restores the sign.
\<close>

definition toFixed1 :: "rat \<Rightarrow> rat" where
  "toFixed1 x =
     (if x < 0 then - (of_int \<lfloor>(- x) * 10 + 1 / 2\<rfloor> / 10)
      else of_int \<lfloor>x * 10 + 1 / 2\<rfloor> / 10)"

text \<open>The counters of a run: how many dates it has constructed and numbers it has drawn.\<close>

record io =
  reads :: nat
  draws :: nat

definition io0 :: io where
  "io0 = \<lparr>reads = 0, draws = 0\<rparr>"

definition stat_point :: "string \<Rightarrow> rat \<Rightarrow> json" where
  "stat_point d v = JObj [(''date'', JStr d), (''value'', JNum v)]"

text \<open>
  The body of the loop of \<^verbatim>\<open>generateHistoricalData\<close> for the loop variable \<open>i\<close>: the
  point it pushes. In the object literal the date is computed before the value, so an
  invalid date raises before the draw.
\<close>

definition loop_body :: "env \<Rightarrow> int \<Rightarrow> rat \<Rightarrow> rat \<Rightarrow> nat \<Rightarrow> io \<Rightarrow> error + json" where
  "loop_body e today mn mx i s =
     (let date = clock e (reads s);
          date' = setDate e date (getDate e today - int i)
      in case toISOString date' of
           Inl err \<Rightarrow> Inl err
         | Inr str \<Rightarrow>
             Inr (stat_point (split_T_first str)
                    (toFixed1 (random e (draws s) * (mx - mn) + mn))))"

text \<open>
  The loop \<^verbatim>\<open>for (let i = 30; i >= 0; i--)\<close>; the argument \<open>Suc i\<close> is the number of
  iterations left, \<open>i\<close> the loop variable.
\<close>

fun gen_loop :: "env \<Rightarrow> int \<Rightarrow> rat \<Rightarrow> rat \<Rightarrow> nat \<Rightarrow> io \<Rightarrow> json list \<Rightarrow> error + (json list \<times> io)" where
  "gen_loop e today mn mx 0 s data = Inr (data, s)"
| "gen_loop e today mn mx (Suc i) s data =
     (case loop_body e today mn mx i s of
        Inl err \<Rightarrow> Inl err
      | Inr point \<Rightarrow>
          gen_loop e today mn mx i \<lparr>reads = reads s + 1, draws = draws s + 1\<rparr> (data @ [point]))"

definition generateHistoricalData :: "env \<Rightarrow> rat \<Rightarrow> rat \<Rightarrow> io \<Rightarrow> error + (json list \<times> io)" where
  "generateHistoricalData e mn mx s =
     (let today = clock e (reads s)
      in gen_loop e today mn mx 31 \<lparr>reads = reads s + 1, draws = draws s\<rparr> [])"

definition bind :: "error + 'a \<Rightarrow> ('a \<Rightarrow> error + 'b) \<Rightarrow> error + 'b" where
  "bind r f = (case r of Inl err \<Rightarrow> Inl err | Inr x \<Rightarrow> f x)"

definition player :: "rat \<Rightarrow> string \<Rightarrow> string \<Rightarrow> string \<Rightarrow> json list \<Rightarrow> json list \<Rightarrow> json list \<Rightarrow> json" where
  "player i nm tm pos pts reb ast =
     JObj [(''id'', JNum i), (''name'', JStr nm), (''team'', JStr tm), (''sport'', JStr ''NBA''),
           (''position'', JStr pos),
           (''stats'', JObj [(''points'', JArr pts), (''rebounds'', JArr reb),
                             (''assists'', JArr ast)])]"

text \<open>The array literal \<^verbatim>\<open>dummyPlayers\<close>: six calls, in the order of the source text.\<close>

definition dummyPlayers :: "env \<Rightarrow> error + json list" where
  "dummyPlayers e =
     bind (generateHistoricalData e 25 35 io0) (\<lambda>(pts1, s1).
     bind (generateHistoricalData e 7 10 s1) (\<lambda>(reb1, s2).
     bind (generateHistoricalData e 7 11 s2) (\<lambda>(ast1, s3).
     bind (generateHistoricalData e 20 33 s3) (\<lambda>(pts2, s4).
     bind (generateHistoricalData e 4 7 s4) (\<lambda>(reb2, s5).
     bind (generateHistoricalData e 5 8 s5) (\<lambda>(ast2, s6).
       Inr [player 1 ''LeBron James'' ''Los Angeles Lakers'' ''Forward'' pts1 reb1 ast1,
            player 2 ''Stephen Curry'' ''Golden State Warriors'' ''Guard'' pts2 reb2 ast2]))))))"

text \<open>\<^verbatim>\<open>p => p.sport !== "NBA"\<close>\<close>

definition not_NBA :: "json \<Rightarrow> error + bool" where
  "not_NBA p = bind (get_prop p ''sport'') (\<lambda>v. Inr (v \<noteq> Some (JStr ''NBA'')))"

text \<open>\<^verbatim>\<open>Array.prototype.filter\<close> with a callback that may raise.\<close>

fun filter_err :: "(json \<Rightarrow> error + bool) \<Rightarrow> json list \<Rightarrow> error + json list" where
  "filter_err f [] = Inr []"
| "filter_err f (p # ps) =
     bind (f p) (\<lambda>keep. bind (filter_err f ps) (\<lambda>rest. Inr (if keep then p # rest else rest)))"

text \<open>
  \<^verbatim>\<open>data.players.filter(...)\<close>: only an array has a callable \<^verbatim>\<open>filter\<close>; on
  \<^verbatim>\<open>undefined\<close>, \<^verbatim>\<open>null\<close> and every other JSON value the call raises a TypeError.
\<close>

fun players_filter :: "json option \<Rightarrow> error + json list" where
  "players_filter (Some (JArr ps)) = filter_err not_NBA ps"
| "players_filter None = Inl (TypeError ''Cannot read properties of undefined (reading filter)'')"
| "players_filter (Some JNull) = Inl (TypeError ''Cannot read properties of null (reading filter)'')"
| "players_filter (Some v) = Inl (TypeError ''data.players.filter is not a function'')"

text \<open>
  \<^verbatim>\<open>let data = { players: [] }; if (fs.existsSync(dataFile)) data = JSON.parse(...)\<close>
\<close>

definition load_existing :: "datafile \<Rightarrow> error + json" where
  "load_existing f =
     (case f of
        Absent \<Rightarrow> Inr (JObj [(''players'', JArr [])])
      | Unparseable m \<Rightarrow> Inl (SyntaxError m)
      | Parsed d \<Rightarrow> Inr d)"

text \<open>
  \<^verbatim>\<open>fs.writeFileSync(dataFile, JSON.stringify(data, null, 2))\<close>: what the call returns or
  throws, and the data file afterwards. \<^verbatim>\<open>JSON.stringify\<close> does not raise on a value that
  \<^verbatim>\<open>JSON.parse\<close> returned.
\<close>

definition write_data :: "env \<Rightarrow> json \<Rightarrow> datafile \<Rightarrow> (error + unit) \<times> datafile" where
  "write_data e data f =
     (case storage e of
        Written \<Rightarrow> (Inr (), Parsed (written data))
      | NotOpened err \<Rightarrow> (Inl err, f)
      | Interrupted err m \<Rightarrow> (Inl err, Unparseable m))"

text \<open>
  \<^verbatim>\<open>scrapeNBAData\<close>. The result is what the call returns or throws (the \<^verbatim>\<open>catch\<close> block
  logs the error and throws it again), and the data file afterwards. The write is the last
  statement of the \<^verbatim>\<open>try\<close> block.
\<close>

definition scrapeNBAData :: "env \<Rightarrow> datafile \<Rightarrow> (error + json list) \<times> datafile" where
  "scrapeNBAData e f =
     (case load_existing f of
        Inl err \<Rightarrow> (Inl err, f)
      | Inr data \<Rightarrow>
          (case dummyPlayers e of
             Inl err \<Rightarrow> (Inl err, f)
           | Inr dummy \<Rightarrow>
               (case bind (get_prop data ''players'') players_filter of
                  Inl err \<Rightarrow> (Inl err, f)
                | Inr others \<Rightarrow>
                    (case write_data e (put_prop data ''players'' (JArr (dummy @ others))) f of
                       (Inl err, f') \<Rightarrow> (Inl err, f')
                     | (Inr u, f') \<Rightarrow> (Inr dummy, f')))))"

section \<open>The players routes: \<^verbatim>\<open>routes/players.js\<close>\<close>

text \<open>
  An HTTP answer sent with \<^verbatim>\<open>res.status(code).json(body)\<close>: the status code and the value
  handed to \<^verbatim>\<open>json\<close>; \<^verbatim>\<open>res.json\<close> alone sends 200.
\<close>

datatype response = Response (status: nat) (body: json)

text \<open>
  \<^verbatim>\<open>parseInt(string)\<close> without a radix, after the ECMAScript definition: leading white space
  is skipped, then a sign, then \<^verbatim>\<open>0x\<close> or \<^verbatim>\<open>0X\<close> selects radix 16, then the longest prefix
  of digits is read; anything after it is ignored, and no digit at all gives NaN (\<open>None\<close>).
  The white space is that of the 8-bit characters.
\<close>

definition is_white :: "char \<Rightarrow> bool" where
  "is_white c = (of_char c \<in> {9, 10, 11, 12, 13, 32, 160 :: nat})"

definition digit_value :: "char \<Rightarrow> nat option" where
  "digit_value c =
     (let n = of_char c :: nat
      in if 48 \<le> n \<and> n \<le> 57 then Some (n - 48)
         else if 97 \<le> n \<and> n \<le> 122 then Some (n - 87)
         else if 65 \<le> n \<and> n \<le> 90 then Some (n - 55)
         else None)"

definition is_digit :: "nat \<Rightarrow> char \<Rightarrow> bool" where
  "is_digit radix c = (case digit_value c of None \<Rightarrow> False | Some d \<Rightarrow> d < radix)"

fun digits_value :: "nat \<Rightarrow> nat \<Rightarrow> string \<Rightarrow> nat" where
  "digits_value radix acc [] = acc"
| "digits_value radix acc (c # cs) =
     digits_value radix (acc * radix + (case digit_value c of None \<Rightarrow> 0 | Some d \<Rightarrow> d)) cs"

definition parseInt :: "string \<Rightarrow> int option" where
  "parseInt inputString =
     (let s = dropWhile is_white inputString;
          sign = (if take 1 s = ''-'' then - 1 else 1 :: int);
          s1 = (if take 1 s = ''-'' \<or> take 1 s = ''+'' then drop 1 s else s);
          hex = (take 2 s1 = ''0x'' \<or> take 2 s1 = ''0X'');
          radix = (if hex then 16 else 10);
          s2 = (if hex then drop 2 s1 else s1);
          z = takeWhile (is_digit radix) s2
      in if z = [] then None else Some (sign * int (digits_value radix 0 z)))"

text \<open>
  \<^verbatim>\<open>v === n\<close> for \<open>n\<close> the result of \<^verbatim>\<open>parseInt\<close>, a whole number or NaN: the same type and
  the same value; NaN equals nothing. \<^verbatim>\<open>parseInt\<close> returns a double: a whole number of at
  least \<open>2^1024 - 2^970\<close> is \<^verbatim>\<open>Infinity\<close>. The rounding of the whole numbers between \<open>2^53\<close>
  and that bound is not part of the model.
\<close>

definition strict_eq_num :: "json option \<Rightarrow> int option \<Rightarrow> bool" where
  "strict_eq_num v n =
     (case (v, n) of
        (Some (JNum q), Some k) \<Rightarrow> q = of_int k
      | (Some JPosInf, Some k) \<Rightarrow> 2 ^ 1024 - 2 ^ 970 \<le> k
      | (Some JNegInf, Some k) \<Rightarrow> k \<le> - (2 ^ 1024 - 2 ^ 970)
      | _ \<Rightarrow> False)"

text \<open>\<^verbatim>\<open>p => p.id === parseInt(req.params.id)\<close>\<close>

definition id_matches :: "string \<Rightarrow> json \<Rightarrow> error + bool" where
  "id_matches param p = bind (get_prop p ''id'') (\<lambda>v. Inr (strict_eq_num v (parseInt param)))"

text \<open>\<^verbatim>\<open>Array.prototype.find\<close> with a callback that may raise: it stops at the first hit.\<close>

fun find_err :: "(json \<Rightarrow> error + bool) \<Rightarrow> json list \<Rightarrow> error + json option" where
  "find_err f [] = Inr None"
| "find_err f (p # ps) = bind (f p) (\<lambda>hit. if hit then Inr (Some p) else find_err f ps)"

fun players_find :: "string \<Rightarrow> json option \<Rightarrow> error + json option" where
  "players_find param (Some (JArr ps)) = find_err (id_matches param) ps"
| "players_find param None = Inl (TypeError ''Cannot read properties of undefined (reading find)'')"
| "players_find param (Some JNull) = Inl (TypeError ''Cannot read properties of null (reading find)'')"
| "players_find param (Some v) = Inl (TypeError ''data.players.find is not a function'')"

text \<open>\<^verbatim>\<open>!player\<close>: \<^verbatim>\<open>undefined\<close>, \<^verbatim>\<open>null\<close>, \<^verbatim>\<open>false\<close>, \<^verbatim>\<open>0\<close> and the empty string are falsy.\<close>

fun falsy :: "json option \<Rightarrow> bool" where
  "falsy None = True"
| "falsy (Some JNull) = True"
| "falsy (Some (JBool b)) = (\<not> b)"
| "falsy (Some (JNum q)) = (q = 0)"
| "falsy (Some JPosInf) = False"
| "falsy (Some JNegInf) = False"
| "falsy (Some (JStr s)) = (s = [])"
| "falsy (Some (JArr xs)) = False"
| "falsy (Some (JObj kvs)) = False"

text \<open>
  \<^verbatim>\<open>JSON.parse(fs.readFileSync(dataFile))\<close> in the route handlers, which do not test
  \<^verbatim>\<open>existsSync\<close>: a missing file raises.
\<close>

definition read_data :: "datafile \<Rightarrow> error + json" where
  "read_data f =
     (case f of
        Absent \<Rightarrow> Inl (SystemError ''ENOENT: no such file or directory'')
      | Unparseable m \<Rightarrow> Inl (SyntaxError m)
      | Parsed d \<Rightarrow> Inr d)"

definition read_error :: "error \<Rightarrow> response" where
  "read_error err =
     Response 500 (JObj [(''message'', JStr ''Error reading player data''),
                         (''error'', JStr (message err))])"

definition not_found :: response where
  "not_found = Response 404 (JObj [(''message'', JStr ''Player not found'')])"

text \<open>\<^verbatim>\<open>router.get('/:id')\<close>: the answer, and the data file afterwards.\<close>

definition get_player :: "string \<Rightarrow> datafile \<Rightarrow> response \<times> datafile" where
  "get_player param f =
     (case bind (read_data f) (\<lambda>data. bind (get_prop data ''players'') (players_find param)) of
        Inl err \<Rightarrow> (read_error err, f)
      | Inr found \<Rightarrow>
          (if falsy found then (not_found, f)
           else (Response 200 (case found of Some p \<Rightarrow> p | None \<Rightarrow> JNull), f)))"

text \<open>
  \<^verbatim>\<open>router.get('/')\<close>; \<^verbatim>\<open>res.json(undefined)\<close> sends an empty body, shown here as \<open>JNull\<close>.
\<close>

definition get_players :: "datafile \<Rightarrow> response \<times> datafile" where
  "get_players f =
     (case bind (read_data f) (\<lambda>data. get_prop data ''players'') of
        Inl err \<Rightarrow> (read_error err, f)
      | Inr v \<Rightarrow> (Response 200 (case v of Some ps \<Rightarrow> ps | None \<Rightarrow> JNull), f))"

section \<open>The scraper routes: \<^verbatim>\<open>routes/scrapers.js\<close>\<close>

definition scraping_completed :: response where
  "scraping_completed = Response 200 (JObj [(''message'', JStr ''NBA data scraping completed'')])"

definition scraper_error :: "error \<Rightarrow> response" where
  "scraper_error err =
     Response 500 (JObj [(''message'', JStr ''Error running scraper''),
                         (''error'', JStr (message err))])"

text \<open>
  \<^verbatim>\<open>router.post('/nba')\<close>. \<^verbatim>\<open>scrapeNBAData\<close> is an \<^verbatim>\<open>async\<close> function without an \<^verbatim>\<open>await\<close>
  in its body: the whole run happens inside the call, before the handler's own \<^verbatim>\<open>await\<close>
  yields, so no other request is served while a run is under way.
\<close>

definition post_nba :: "env \<Rightarrow> datafile \<Rightarrow> response \<times> datafile" where
  "post_nba e f =
     (case scrapeNBAData e f of
        (Inr players, f') \<Rightarrow> (scraping_completed, f')
      | (Inl err, f') \<Rightarrow> (scraper_error err, f'))"

definition idle_status :: response where
  "idle_status =
     Response 200 (JObj [(''nba'', JObj [(''status'', JStr ''idle''), (''lastRun'', JNull)])])"

text \<open>\<^verbatim>\<open>router.get('/status')\<close>\<close>

definition get_status :: "datafile \<Rightarrow> response \<times> datafile" where
  "get_status f = (idle_status, f)"

text \<open>
  The server: requests are handled one after the other; the data file is the only state
  that lives from one request to the next. A trigger carries what its run will observe of
  the clock and the random source.
\<close>

datatype request = PostNba env | GetStatus | GetPlayers | GetPlayer string

fun handle :: "request \<Rightarrow> datafile \<Rightarrow> response \<times> datafile" where
  "handle (PostNba e) f = post_nba e f"
| "handle GetStatus f = get_status f"
| "handle GetPlayers f = get_players f"
| "handle (GetPlayer param) f = get_player param f"

fun serve :: "request list \<Rightarrow> datafile \<Rightarrow> response list \<times> datafile" where
  "serve [] f = ([], f)"
| "serve (r # rs) f =
     (case handle r f of (resp, f') \<Rightarrow>
        (case serve rs f' of (resps, f'') \<Rightarrow> (resp # resps, f'')))"


record run =
  started :: int
  finished :: int
  answer :: response



section \<open>Reading the stored data\<close>

text \<open>The observations the properties below are stated with.\<close>

definition field :: "string \<Rightarrow> json \<Rightarrow> json option" where
  "field k v = (case v of JObj kvs \<Rightarrow> map_of kvs k | _ \<Rightarrow> None)"

text \<open>
  The player list a data file holds: a missing file holds none (the scraper starts from
  \<^verbatim>\<open>{ players: [] }\<close>), a file without a \<^verbatim>\<open>players\<close> array has no list.
\<close>

definition stored_players :: "datafile \<Rightarrow> json list option" where
  "stored_players f =
     (case f of
        Absent \<Rightarrow> Some []
      | Unparseable m \<Rightarrow> None
      | Parsed d \<Rightarrow> (case field ''players'' d of Some (JArr ps) \<Rightarrow> Some ps | _ \<Rightarrow> None))"

definition returned :: "error + json list \<Rightarrow> json list" where
  "returned r = (case r of Inl err \<Rightarrow> [] | Inr ps \<Rightarrow> ps)"

text \<open>The names of a player's metrics, and the series of one metric.\<close>

definition metrics :: "json \<Rightarrow> string list" where
  "metrics p = (case field ''stats'' p of Some (JObj kvs) \<Rightarrow> map fst kvs | _ \<Rightarrow> [])"

definition series_of :: "string \<Rightarrow> json \<Rightarrow> json list" where
  "series_of metric p =
     (case field ''stats'' p of
        Some st \<Rightarrow> (case field metric st of Some (JArr pts) \<Rightarrow> pts | _ \<Rightarrow> [])
      | None \<Rightarrow> [])"

definition point_date :: "json \<Rightarrow> string" where
  "point_date pt = (case field ''date'' pt of Some (JStr d) \<Rightarrow> d | _ \<Rightarrow> [])"

definition point_value :: "json \<Rightarrow> rat" where
  "point_value pt = (case field ''value'' pt of Some (JNum v) \<Rightarrow> v | _ \<Rightarrow> 0)"

text \<open>
  What \<^verbatim>\<open>generateHistoricalData\<close> returns when every \<^verbatim>\<open>new Date()\<close> of the call reads the
  same instant \<open>c\<close> and \<open>d\<close> numbers have been drawn before (lemma \<open>generate_at_instant\<close>).
\<close>

definition instant_series :: "env \<Rightarrow> int \<Rightarrow> rat \<Rightarrow> rat \<Rightarrow> nat \<Rightarrow> json list" where
  "instant_series e c mn mx d =
     map (\<lambda>j. stat_point
                 (split_T_first (iso_string (UTC e (LocalTime e c - int (30 - j) * msPerDay))))
                 (toFixed1 (random e (d + j) * (mx - mn) + mn)))
       [0..<31]"

definition instant_players :: "env \<Rightarrow> int \<Rightarrow> json list" where
  "instant_players e c =
     [player 1 ''LeBron James'' ''Los Angeles Lakers'' ''Forward''
        (instant_series e c 25 35 0) (instant_series e c 7 10 31) (instant_series e c 7 11 62),
      player 2 ''Stephen Curry'' ''Golden State Warriors'' ''Guard''
        (instant_series e c 20 33 93) (instant_series e c 4 7 124) (instant_series e c 5 8 155)]"

section \<open>Concrete runs\<close>

text \<open>
  A host on UTC whose run reads 2025-11-03T12:00:00Z at every \<^verbatim>\<open>new Date()\<close>, with every
  \<^verbatim>\<open>Math.random()\<close> giving one half and a write that succeeds; and the same host with every
  draw giving zero.
\<close>

definition utc_noon :: env where
  "utc_noon =
     \<lparr>clock = (\<lambda>k. 1762171200000), random = (\<lambda>k. 1 / 2), LocalTZA = (\<lambda>t isUTC. 0),
      storage = Written\<rparr>"



definition tom_brady :: json where
  "tom_brady = JObj [(''id'', JNum 7), (''name'', JStr ''Tom Brady''), (''sport'', JStr ''NFL'')]"

definition old_lebron :: json where
  "old_lebron = JObj [(''id'', JNum 1), (''name'', JStr ''LeBron James''), (''sport'', JStr ''NBA'')]"

definition two_sports :: datafile where
  "two_sports = Parsed (JObj [(''players'', JArr [tom_brady, old_lebron])])"

text \<open>
  A data file with one player of another sport, whose text gives a number beyond the range
  of a double, \<^verbatim>\<open>"salary": 1e400\<close>; and that player as \<^verbatim>\<open>JSON.stringify\<close> writes him.
\<close>

definition rich_tom :: json where
  "rich_tom =
     JObj [(''id'', JNum 7), (''name'', JStr ''Tom Brady''), (''sport'', JStr ''NFL''),
           (''salary'', JPosInf)]"

definition rich_tom_written :: json where
  "rich_tom_written =
     JObj [(''id'', JNum 7), (''name'', JStr ''Tom Brady''), (''sport'', JStr ''NFL''),
           (''salary'', JNull)]"

definition one_rich :: datafile where
  "one_rich = Parsed (JObj [(''players'', JArr [rich_tom])])"

text \<open>A data file whose list of players holds the bare number \<^verbatim>\<open>1e400\<close>.\<close>

definition bare_number :: datafile where
  "bare_number = Parsed (JObj [(''players'', JArr [JPosInf])])"




definition corrupt :: datafile where
  "corrupt = Unparseable ''Unexpected end of JSON input''"


text \<open>
  Hosts whose time zone changes its offset. In \<open>london\<close> the offset goes from 0 to one hour
  at 2025-03-30T01:00:00Z, and the run reads 2025-04-09T23:30:00Z (00:30 local time on
  April 10th). In \<open>new_york\<close> the offset goes from -4 to -5 hours at 2025-11-02T06:00:00Z,
  and the run reads 2025-11-10T00:30:00Z (19:30 local time on November 9th). A local time
  that the change skips or repeats is read with the offset before the change.
\<close>

definition london :: env where
  "london =
     \<lparr>clock = (\<lambda>k. 1744241400000), random = (\<lambda>k. 1 / 2),
      LocalTZA = (\<lambda>t isUTC.
        if isUTC then (if t < 1743296400000 then 0 else 3600000)
        else (if t < 1743296400000 + 3600000 then 0 else 3600000)),
      storage = Written\<rparr>"

definition new_york :: env where
  "new_york =
     \<lparr>clock = (\<lambda>k. 1762734600000), random = (\<lambda>k. 1 / 2),
      LocalTZA = (\<lambda>t isUTC.
        if isUTC then (if t < 1762063200000 then - 14400000 else - 18000000)
        else (if t < 1762063200000 - 14400000 then - 14400000 else - 18000000)),
      storage = Written\<rparr>"

text \<open>A series is ordered by date with one point per date: its dates increase strictly.\<close>

definition dates_increasing :: "json list \<Rightarrow> bool" where
  "dates_increasing pts = sorted_wrt (<) (map point_date pts)"

section \<open>Reading the routes\<close>

text \<open>
  A data file the player routes can read: it parses to an object whose \<^verbatim>\<open>players\<close> is an
  array of values other than \<^verbatim>\<open>null\<close>.
\<close>

definition readable :: "datafile \<Rightarrow> bool" where
  "readable f =
     (case f of
        Parsed d \<Rightarrow> (case field ''players'' d of Some (JArr ps) \<Rightarrow> JNull \<notin> set ps | _ \<Rightarrow> False)
      | _ \<Rightarrow> False)"

text \<open>The player's \<^verbatim>\<open>id\<close> is the number \<open>n\<close>.\<close>

definition has_id :: "int option \<Rightarrow> json \<Rightarrow> bool" where
  "has_id n p = strict_eq_num (field ''id'' p) n"

text \<open>The status and the last run that an answer of the status route reports.\<close>

definition run_state :: "response \<Rightarrow> json option" where
  "run_state r = (case field ''nba'' (body r) of Some st \<Rightarrow> field ''status'' st | None \<Rightarrow> None)"

definition last_run :: "response \<Rightarrow> json option" where
  "last_run r = (case field ''nba'' (body r) of Some st \<Rightarrow> field ''lastRun'' st | None \<Rightarrow> None)"

text \<open>
  Runs executed one after the other, each on the data file the one before left, and the
  answer of the trigger route to the outcome of a run.
\<close>

fun run_all :: "env list \<Rightarrow> datafile \<Rightarrow> (error + json list) list \<times> datafile" where
  "run_all [] f = ([], f)"
| "run_all (e # es) f =
     (case scrapeNBAData e f of (r, f') \<Rightarrow>
        (case run_all es f' of (rs, f'') \<Rightarrow> (r # rs, f'')))"

definition trigger_answer :: "error + json list \<Rightarrow> response" where
  "trigger_answer r = (case r of Inl err \<Rightarrow> scraper_error err | Inr players \<Rightarrow> scraping_completed)"

section \<open>The rate limiter\<close>

text \<open>
  Modelled from the spec: the RateLimiter (spec section 4.2) is not in the sources. The
  JavaScript scraper is a stub that sends no request, and the scraper that the usage
  instructions describe is not part of them. The model follows the spec's words: per
  origin the limiter keeps the time of the last permitted request and a queue of waiting
  callers; the effective delay is the maximum of the crawl-delay of robots.txt and the
  global floor; the caller at the head of the queue is released once the time since the
  last release meets the effective delay. Times are in milliseconds.
\<close>

type_synonym origin = string

type_synonym caller = nat

record limiter =
  global_floor :: nat
  crawl_delay :: "origin \<Rightarrow> nat"
  last_release :: "origin \<Rightarrow> int option"
  waiting :: "origin \<Rightarrow> caller list"
  released :: "(origin \<times> caller \<times> int) list"

definition new_limiter :: "nat \<Rightarrow> (origin \<Rightarrow> nat) \<Rightarrow> limiter" where
  "new_limiter fl cd =
     \<lparr>global_floor = fl, crawl_delay = cd, last_release = (\<lambda>og. None),
      waiting = (\<lambda>og. []), released = []\<rparr>"

definition effective_delay :: "limiter \<Rightarrow> origin \<Rightarrow> nat" where
  "effective_delay l og = max (crawl_delay l og) (global_floor l)"

definition permitted :: "limiter \<Rightarrow> origin \<Rightarrow> int \<Rightarrow> bool" where
  "permitted l og t =
     (case last_release l og of
        None \<Rightarrow> True
      | Some t0 \<Rightarrow> int (effective_delay l og) \<le> t - t0)"

text \<open>At time \<open>t\<close>, release the caller at the head of the queue of an origin, if permitted.\<close>

definition release_next :: "int \<Rightarrow> origin \<Rightarrow> limiter \<Rightarrow> limiter" where
  "release_next t og l =
     (case waiting l og of
        [] \<Rightarrow> l
      | c # cs \<Rightarrow>
          if permitted l og t
          then l\<lparr>last_release := (last_release l)(og := Some t),
                 waiting := (waiting l)(og := cs),
                 released := released l @ [(og, c, t)]\<rparr>
          else l)"

text \<open>
  What happens to a limiter: a caller calls \<^verbatim>\<open>acquire(origin)\<close> and joins the queue, or the
  limiter wakes up for an origin; either way the head of that queue is released if the
  delay has passed.
\<close>

datatype event = Acquire origin caller | Wake origin

fun limiter_step :: "limiter \<Rightarrow> int \<times> event \<Rightarrow> limiter" where
  "limiter_step l (t, Acquire og c) =
     release_next t og (l\<lparr>waiting := (waiting l)(og := waiting l og @ [c])\<rparr>)"
| "limiter_step l (t, Wake og) = release_next t og l"

definition limiter_run :: "limiter \<Rightarrow> (int \<times> event) list \<Rightarrow> limiter" where
  "limiter_run l evs = foldl limiter_step l evs"

text \<open>The times of the releases for an origin, the callers released, and the callers that asked.\<close>

definition release_times :: "origin \<Rightarrow> limiter \<Rightarrow> int list" where
  "release_times og l = map (\<lambda>(og', c, t). t) (filter (\<lambda>(og', c, t). og' = og) (released l))"

definition released_callers :: "origin \<Rightarrow> limiter \<Rightarrow> caller list" where
  "released_callers og l = map (\<lambda>(og', c, t). c) (filter (\<lambda>(og', c, t). og' = og) (released l))"

fun arrivals :: "origin \<Rightarrow> (int \<times> event) list \<Rightarrow> caller list" where
  "arrivals og [] = []"
| "arrivals og ((t, Acquire og' c) # evs) = (if og' = og then c # arrivals og evs else arrivals og evs)"
| "arrivals og ((t, Wake og') # evs) = arrivals og evs"

section \<open>Lemmas about the built-in Date and the generator\<close>

lemma bind_simps [simp]: "bind (Inr x) f = f x" "bind (Inl err) f = Inl err"
  by (simp_all add: bind_def)

lemma bind_Inr_iff: "bind r f = Inr y \<longleftrightarrow> (\<exists>x. r = Inr x \<and> f x = Inr y)"
  by (cases r) simp_all

lemma MonthFromTime_range: "0 \<le> MonthFromTime t \<and> MonthFromTime t \<le> 11"
  by (simp add: MonthFromTime_def Let_def)

text \<open>
  Going back \<open>i\<close> days from the day of the month of \<open>t\<close>, within the month of \<open>t\<close>, is
  going back \<open>i\<close> days: \<^verbatim>\<open>setDate\<close> with a date below 1 reaches into the months before.
\<close>

lemma MakeDay_back:
  "MakeDay (YearFromTime t) (MonthFromTime t) (DateFromTime t - i) = Day t - i"
proof -
  have "MonthFromTime t div 12 = 0" "MonthFromTime t mod 12 = MonthFromTime t"
    using MonthFromTime_range[of t] by simp_all
  then show ?thesis
    by (simp add: MakeDay_def DateFromTime_def DayWithinYear_def InLeapYear_def Let_def)
qed

lemma setDate_back:
  "setDate e t (getDate e t - i) = TimeClip (UTC e (LocalTime e t - i * msPerDay))"
proof -
  have "MakeDate (Day (LocalTime e t) - i) (TimeWithinDay (LocalTime e t))
      = LocalTime e t - i * msPerDay"
    by (simp add: MakeDate_def Day_def TimeWithinDay_def algebra_simps)
  then show ?thesis
    by (simp add: setDate_def getDate_def MakeDay_back Let_def)
qed

text \<open>The loop as a map: if every iteration succeeds, the points come in the order of the iterations.\<close>

lemma gen_loop_map:
  "(\<And>j. j < n \<Longrightarrow>
      loop_body e today mn mx (n - 1 - j) \<lparr>reads = reads s + j, draws = draws s + j\<rparr> = Inr (g j)) \<Longrightarrow>
   gen_loop e today mn mx n s data =
     Inr (data @ map g [0..<n], \<lparr>reads = reads s + n, draws = draws s + n\<rparr>)"
proof (induction n arbitrary: s data g)
  case 0
  then show ?case by simp
next
  case (Suc n)
  have first: "loop_body e today mn mx n s = Inr (g 0)"
    using Suc.prems[of 0] by (cases s) simp
  have "gen_loop e today mn mx n \<lparr>reads = reads s + 1, draws = draws s + 1\<rparr> (data @ [g 0])
      = Inr ((data @ [g 0]) @ map (\<lambda>j. g (Suc j)) [0..<n],
             \<lparr>reads = reads \<lparr>reads = reads s + 1, draws = draws s + 1\<rparr> + n,
              draws = draws \<lparr>reads = reads s + 1, draws = draws s + 1\<rparr> + n\<rparr>)"
  proof (rule Suc.IH)
    fix j assume "j < n"
    then show "loop_body e today mn mx (n - 1 - j)
          \<lparr>reads = reads \<lparr>reads = reads s + 1, draws = draws s + 1\<rparr> + j,
             draws = draws \<lparr>reads = reads s + 1, draws = draws s + 1\<rparr> + j\<rparr> = Inr (g (Suc j))"
      using Suc.prems[of "Suc j"] by simp
  qed
  moreover have "map g [0..<Suc n] = g 0 # map (\<lambda>j. g (Suc j)) [0..<n]"
    by (simp add: upt_conv_Cons map_Suc_upt[symmetric] del: upt_Suc)
  ultimately show ?case
    using first by simp
qed

lemma gen_loop_length:
  "gen_loop e today mn mx n s data = Inr (res, s') \<Longrightarrow> length res = length data + n"
  by (induction n arbitrary: s data) (auto split: sum.splits)

lemma generate_length:
  "generateHistoricalData e mn mx s = Inr (res, s') \<Longrightarrow> length res = 31"
  by (auto simp: generateHistoricalData_def Let_def dest: gen_loop_length)

lemma loop_body_at_instant:
  assumes "clock e (reads s) = c"
    and "\<bar>UTC e (LocalTime e c - int i * msPerDay)\<bar> \<le> 8640000000000000"
  shows "loop_body e c mn mx i s =
     Inr (stat_point (split_T_first (iso_string (UTC e (LocalTime e c - int i * msPerDay))))
            (toFixed1 (random e (draws s) * (mx - mn) + mn)))"
  using assms by (simp add: loop_body_def setDate_back TimeClip_def toISOString_def Let_def)

lemma generate_at_instant:
  assumes c: "\<And>k. clock e k = c"
    and r: "\<And>i. i \<le> 30 \<Longrightarrow> \<bar>UTC e (LocalTime e c - int i * msPerDay)\<bar> \<le> 8640000000000000"
  shows "generateHistoricalData e mn mx s =
     Inr (instant_series e c mn mx (draws s), \<lparr>reads = reads s + 32, draws = draws s + 31\<rparr>)"
proof -
  have "gen_loop e c mn mx 31 \<lparr>reads = reads s + 1, draws = draws s\<rparr> [] =
     Inr ([] @ map (\<lambda>j. stat_point
                       (split_T_first (iso_string (UTC e (LocalTime e c - int (30 - j) * msPerDay))))
                       (toFixed1 (random e (draws s + j) * (mx - mn) + mn))) [0..<31],
          \<lparr>reads = reads \<lparr>reads = reads s + 1, draws = draws s\<rparr> + 31,
           draws = draws \<lparr>reads = reads s + 1, draws = draws s\<rparr> + 31\<rparr>)"
  proof (rule gen_loop_map)
    fix j :: nat assume "j < 31"
    then show "loop_body e c mn mx (31 - 1 - j)
          \<lparr>reads = reads \<lparr>reads = reads s + 1, draws = draws s\<rparr> + j,
             draws = draws \<lparr>reads = reads s + 1, draws = draws s\<rparr> + j\<rparr> =
         Inr (stat_point
                (split_T_first (iso_string (UTC e (LocalTime e c - int (30 - j) * msPerDay))))
                (toFixed1 (random e (draws s + j) * (mx - mn) + mn)))"
      using loop_body_at_instant[of e "\<lparr>reads = reads s + 1 + j, draws = draws s + j\<rparr>" c "30 - j" mn mx]
        c r[of "30 - j"]
      by simp
  qed
  then show ?thesis
    by (simp add: generateHistoricalData_def instant_series_def c Let_def)
qed

lemma dummyPlayers_at_instant:
  assumes c: "\<And>k. clock e k = c"
    and r: "\<And>i. i \<le> 30 \<Longrightarrow> \<bar>UTC e (LocalTime e c - int i * msPerDay)\<bar> \<le> 8640000000000000"
  shows "dummyPlayers e = Inr (instant_players e c)"
  by (simp add: dummyPlayers_def instant_players_def generate_at_instant[OF c r] io0_def)

lemma utc_noon_players: "dummyPlayers utc_noon = Inr (instant_players utc_noon 1762171200000)"
  by (rule dummyPlayers_at_instant) (simp_all add: utc_noon_def UTC_def LocalTime_def msPerDay_def)


section \<open>The model of the Date against its definition\<close>

text \<open>
  The leap days between 1970 and the year \<open>1970 + k\<close>: at most one per year, and none of
  the wrong sign.
\<close>

lemma int_div_bounds:
  fixes x n :: int
  assumes "0 < n"
  shows "n * (x div n) \<le> x" and "x < n * (x div n) + n"
proof -
  have "x = n * (x div n) + x mod n" by simp
  moreover have "0 \<le> x mod n" "x mod n < n" using assms by simp_all
  ultimately show "n * (x div n) \<le> x" and "x < n * (x div n) + n" by linarith+
qed

lemma DayFromYear_leap_days:
  "(0 \<le> k \<longrightarrow> 365 * k \<le> DayFromYear (1970 + k) \<and> DayFromYear (1970 + k) \<le> 366 * k) \<and>
   (k \<le> 0 \<longrightarrow> 366 * k \<le> DayFromYear (1970 + k) \<and> DayFromYear (1970 + k) \<le> 365 * k)"
proof -
  define a where "a = (k + 1) div 4"
  define b where "b = (k + 69) div 100"
  define c where "c = (k + 369) div 400"
  have D: "DayFromYear (1970 + k) = 365 * k + a - b + c"
    by (simp add: DayFromYear_def a_def b_def c_def add.commute)
  have a: "4 * a \<le> k + 1" "k + 1 < 4 * a + 4"
    unfolding a_def by (rule int_div_bounds, simp)+
  have b: "100 * b \<le> k + 69" "k + 69 < 100 * b + 100"
    unfolding b_def by (rule int_div_bounds, simp)+
  have c: "400 * c \<le> k + 369" "k + 369 < 400 * c + 400"
    unfolding c_def by (rule int_div_bounds, simp)+
  consider "2 \<le> k" | "k = 1" | "k = 0" | "k = - 1" | "k \<le> - 2"
    by linarith
  then show ?thesis
  proof cases
    case 1
    with a b c show ?thesis unfolding D by linarith
  next
    case 2
    then show ?thesis by (simp add: DayFromYear_def)
  next
    case 3
    then show ?thesis by (simp add: DayFromYear_def)
  next
    case 4
    then show ?thesis by (simp add: DayFromYear_def)
  next
    case 5
    with a b c show ?thesis unfolding D by linarith
  qed
qed

lemma find_rev_upto:
  "find P (rev [lo..hi]) = Some y \<Longrightarrow> lo \<le> y \<and> y \<le> hi \<and> P y \<and> (\<forall>z. y < z \<and> z \<le> hi \<longrightarrow> \<not> P z)"
proof (induction "nat (hi - lo + 1)" arbitrary: hi)
  case 0
  then show ?case by simp
next
  case (Suc n)
  then have le: "lo \<le> hi" by linarith
  then have unfold: "rev [lo..hi] = hi # rev [lo..hi - 1]"
    by (simp add: upto_rec2)
  show ?case
  proof (cases "P hi")
    case True
    with Suc.prems unfold le show ?thesis by auto
  next
    case False
    with Suc.prems unfold have f: "find P (rev [lo..hi - 1]) = Some y" by simp
    have "n = nat (hi - 1 - lo + 1)" using Suc.hyps(2) by linarith
    from Suc.hyps(1)[OF this f]
    have "lo \<le> y \<and> y \<le> hi - 1 \<and> P y \<and> (\<forall>z. y < z \<and> z \<le> hi - 1 \<longrightarrow> \<not> P z)" .
    with False show ?thesis
      by (metis add_le_cancel_right diff_add_cancel order_le_less zle_diff1_eq)
  qed
qed

lemma find_rev_upto_None:
  "find P (rev [lo..hi]) = None \<Longrightarrow> lo \<le> hi \<Longrightarrow> \<not> P lo"
  by (simp add: find_None_iff)

text \<open>\<^verbatim>\<open>YearFromTime(t)\<close> is the largest year that begins at or before \<open>t\<close>.\<close>

lemma YearFromTime_largest:
  "DayFromYear (YearFromTime t) \<le> Day t \<and> Day t < DayFromYear (YearFromTime t + 1)"
proof -
  define d where "d = Day t"
  define lo where "lo = 1970 + min (d div 365) (d div 366)"
  define hi where "hi = 1970 + max (d div 365) (d div 366)"
  have lohi: "lo \<le> hi"
    by (simp add: lo_def hi_def)
  define p where "p = d div 365"
  define q where "q = d div 366"
  have p: "365 * p \<le> d" "d < 365 * p + 365"
    unfolding p_def by (rule int_div_bounds, simp)+
  have q: "366 * q \<le> d" "d < 366 * q + 366"
    unfolding q_def by (rule int_div_bounds, simp)+
  have first: "DayFromYear lo \<le> d"
  proof (cases "0 \<le> d")
    case True
    with p q have "0 \<le> min p q" "min p q \<le> q" by simp_all
    with DayFromYear_leap_days[of "min p q"] q show ?thesis
      unfolding lo_def p_def[symmetric] q_def[symmetric] by linarith
  next
    case False
    with p q have "min p q \<le> 0" "min p q \<le> p" by simp_all
    with DayFromYear_leap_days[of "min p q"] p show ?thesis
      unfolding lo_def p_def[symmetric] q_def[symmetric] by linarith
  qed
  have last: "d < DayFromYear (hi + 1)"
  proof (cases "0 \<le> d")
    case True
    with p q have "0 \<le> max p q + 1" "p \<le> max p q" by simp_all
    with DayFromYear_leap_days[of "max p q + 1"] p show ?thesis
      unfolding hi_def p_def[symmetric] q_def[symmetric] by (simp add: add.assoc) linarith
  next
    case False
    with p q have "max p q + 1 \<le> 0" "q \<le> max p q" by simp_all
    with DayFromYear_leap_days[of "max p q + 1"] q show ?thesis
      unfolding hi_def p_def[symmetric] q_def[symmetric] by (simp add: add.assoc) linarith
  qed
  obtain y where y: "find (\<lambda>y. DayFromYear y \<le> d) (rev [lo..hi]) = Some y"
    using find_rev_upto_None[of "\<lambda>y. DayFromYear y \<le> d" lo hi] first lohi
    by (cases "find (\<lambda>y. DayFromYear y \<le> d) (rev [lo..hi])") auto
  from find_rev_upto[OF y]
  have py: "DayFromYear y \<le> d" and yhi: "y \<le> hi"
    and above: "\<And>z. y < z \<Longrightarrow> z \<le> hi \<Longrightarrow> \<not> DayFromYear z \<le> d"
    by auto
  have "d < DayFromYear (y + 1)"
  proof (cases "y = hi")
    case True
    with last show ?thesis by simp
  next
    case False
    with yhi above[of "y + 1"] show ?thesis by simp
  qed
  moreover have "YearFromTime t = y"
    using y by (simp add: YearFromTime_def d_def lo_def hi_def Let_def)
  ultimately show ?thesis
    using py by (simp add: d_def)
qed

section \<open>Lemmas about the merge\<close>

lemma field_player [simp]:
  "field ''id'' (player i nm tm pos pts reb ast) = Some (JNum i)"
  "field ''name'' (player i nm tm pos pts reb ast) = Some (JStr nm)"
  "field ''sport'' (player i nm tm pos pts reb ast) = Some (JStr ''NBA'')"
  "metrics (player i nm tm pos pts reb ast) = [''points'', ''rebounds'', ''assists'']"
  "series_of ''points'' (player i nm tm pos pts reb ast) = pts"
  by (simp_all add: field_def player_def metrics_def series_of_def)

lemma player_not_null: "JNull \<noteq> player i nm tm pos pts reb ast"
  by (simp add: player_def)

lemma not_NBA_Inr:
  "not_NBA p = Inr b \<longleftrightarrow> p \<noteq> JNull \<and> b = (field ''sport'' p \<noteq> Some (JStr ''NBA''))"
  by (cases p) (auto simp: not_NBA_def field_def)

lemma filter_err_Inr:
  "filter_err not_NBA ps = Inr r \<longleftrightarrow>
     JNull \<notin> set ps \<and> r = filter (\<lambda>p. field ''sport'' p \<noteq> Some (JStr ''NBA'')) ps"
proof (induction ps arbitrary: r)
  case Nil
  show ?case by auto
next
  case (Cons p ps)
  show ?case
    by (auto simp: bind_Inr_iff not_NBA_Inr Cons.IH)
qed

lemma filter_err_ok:
  "JNull \<notin> set ps \<Longrightarrow>
   filter_err not_NBA ps = Inr (filter (\<lambda>p. field ''sport'' p \<noteq> Some (JStr ''NBA'')) ps)"
  by (simp add: filter_err_Inr)

lemma players_filter_Inr:
  "players_filter v = Inr r \<longleftrightarrow>
     (\<exists>ps. v = Some (JArr ps) \<and> JNull \<notin> set ps
          \<and> r = filter (\<lambda>p. field ''sport'' p \<noteq> Some (JStr ''NBA'')) ps)"
  by (cases v rule: players_filter.cases) (simp_all add: filter_err_Inr)

lemma get_prop_Some:
  "get_prop d k = Inr (Some v) \<longleftrightarrow> (\<exists>kvs. d = JObj kvs \<and> map_of kvs k = Some v)"
  by (cases d) auto

lemma map_of_put_assoc:
  "map_of (put_assoc k v kvs) k' = (if k' = k then Some v else map_of kvs k')"
  by (induction kvs) auto


text \<open>What writing and reading back does to a value.\<close>

lemma written_in_range: "in_range v \<Longrightarrow> written v = v"
  by (induction v) (auto simp: list_all_iff intro!: map_idI)









lemma written_put_assoc:
  "map (map_prod id written) (put_assoc k v kvs)
     = put_assoc k (written v) (map (map_prod id written) kvs)"
  by (induction kvs) auto

lemma in_range_player:
  "list_all in_range pts \<Longrightarrow> list_all in_range reb \<Longrightarrow> list_all in_range ast \<Longrightarrow>
   in_range (player i nm tm pos pts reb ast)"
  by (simp add: player_def)

lemma gen_loop_in_range:
  "gen_loop e today mn mx n s data = Inr (res, s') \<Longrightarrow> list_all in_range data \<Longrightarrow>
   list_all in_range res"
proof (induction n arbitrary: s data)
  case 0
  then show ?case by simp
next
  case (Suc n)
  from Suc.prems(1) obtain p where
    p: "loop_body e today mn mx n s = Inr p"
    and rest: "gen_loop e today mn mx n \<lparr>reads = reads s + 1, draws = draws s + 1\<rparr> (data @ [p])
                 = Inr (res, s')"
    by (auto split: sum.splits)
  from p have "in_range p"
    by (auto simp: loop_body_def Let_def stat_point_def split: sum.splits)
  with Suc.prems(2) have "list_all in_range (data @ [p])"
    by simp
  with rest show ?case
    by (rule Suc.IH)
qed

lemma generate_in_range:
  "generateHistoricalData e mn mx s = Inr (res, s') \<Longrightarrow> list_all in_range res"
  by (auto simp: generateHistoricalData_def Let_def dest: gen_loop_in_range)

lemma dummyPlayers_shape:
  "dummyPlayers e = Inr ps \<Longrightarrow>
     \<exists>pts1 reb1 ast1 pts2 reb2 ast2.
       ps = [player 1 ''LeBron James'' ''Los Angeles Lakers'' ''Forward'' pts1 reb1 ast1,
             player 2 ''Stephen Curry'' ''Golden State Warriors'' ''Guard'' pts2 reb2 ast2]"
  by (fastforce simp: dummyPlayers_def bind_Inr_iff split: prod.splits)

lemma dummyPlayers_in_range:
  "dummyPlayers e = Inr ps \<Longrightarrow> list_all in_range ps"
  by (auto simp: dummyPlayers_def bind_Inr_iff in_range_player dest!: generate_in_range
           split: prod.splits)

lemma dummyPlayers_written:
  "dummyPlayers e = Inr ps \<Longrightarrow> map written ps = ps"
  by (drule dummyPlayers_in_range) (auto simp: list_all_iff written_in_range intro!: map_idI)

lemma dummyPlayers_NBA:
  assumes "dummyPlayers e = Inr ps"
  shows "filter (\<lambda>p. field ''sport'' p \<noteq> Some (JStr ''NBA'')) ps = []"
    and "JNull \<notin> set ps"
    and "\<forall>p \<in> set ps. field ''sport'' p = Some (JStr ''NBA'')"
  using dummyPlayers_shape[OF assms] by (auto simp: player_not_null)

text \<open>When a run succeeds, and what it leaves.\<close>

lemma scrape_Inr:
  "scrapeNBAData e f = (Inr new, f') \<longleftrightarrow>
     (\<exists>kvs prior. load_existing f = Inr (JObj kvs) \<and> map_of kvs ''players'' = Some (JArr prior)
        \<and> JNull \<notin> set prior \<and> dummyPlayers e = Inr new \<and> storage e = Written
        \<and> f' = Parsed (written (JObj (put_assoc ''players''
                 (JArr (new @ filter (\<lambda>p. field ''sport'' p \<noteq> Some (JStr ''NBA'')) prior)) kvs))))"
  by (auto simp: scrapeNBAData_def write_data_def bind_Inr_iff players_filter_Inr get_prop_Some
           filter_err_ok
           split: sum.splits write_outcome.splits)

lemma scrape_fst_Inr:
  "fst (scrapeNBAData e f) = Inr new \<longleftrightarrow> scrapeNBAData e f = (Inr new, snd (scrapeNBAData e f))"
  by (metis fst_conv prod.collapse)

lemma load_existing_players:
  "load_existing f = Inr (JObj kvs) \<Longrightarrow> map_of kvs ''players'' = Some (JArr prior) \<Longrightarrow>
   stored_players f = Some prior"
  by (auto simp: load_existing_def stored_players_def field_def split: datafile.splits)



lemma scrape_utc_noon_two_sports:
  "fst (scrapeNBAData utc_noon two_sports) = Inr (instant_players utc_noon 1762171200000)"
  by (simp add: scrapeNBAData_def write_data_def load_existing_def two_sports_def utc_noon_players
      tom_brady_def old_lebron_def not_NBA_def)
     (simp add: utc_noon_def)

lemma stored_two_sports: "stored_players two_sports = Some [tom_brady, old_lebron]"
  by (simp add: stored_players_def two_sports_def field_def)

lemma scrape_ok:
  assumes "load_existing f = Inr (JObj kvs)" and "map_of kvs ''players'' = Some (JArr prior)"
    and "JNull \<notin> set prior" and "dummyPlayers e = Inr new" and "storage e = Written"
  shows "scrapeNBAData e f =
     (Inr new, Parsed (written (JObj (put_assoc ''players''
        (JArr (new @ filter (\<lambda>p. field ''sport'' p \<noteq> Some (JStr ''NBA'')) prior)) kvs))))"
  unfolding scrape_Inr using assms by blast

lemma stored_after_scrape:
  assumes "fst (scrapeNBAData e f) = Inr new"
  shows "\<exists>prior. stored_players f = Some prior \<and>
           stored_players (snd (scrapeNBAData e f)) =
             Some (new @ map written (filter (\<lambda>p. field ''sport'' p \<noteq> Some (JStr ''NBA'')) prior))"
proof -
  from assms obtain kvs prior where
    l: "load_existing f = Inr (JObj kvs)" and m: "map_of kvs ''players'' = Some (JArr prior)"
    and d: "dummyPlayers e = Inr new"
    and f': "snd (scrapeNBAData e f) = Parsed (written (JObj (put_assoc ''players''
          (JArr (new @ filter (\<lambda>p. field ''sport'' p \<noteq> Some (JStr ''NBA'')) prior)) kvs)))"
    unfolding scrape_fst_Inr scrape_Inr by blast
  have "stored_players f = Some prior"
    using l m by (rule load_existing_players)
  moreover have "stored_players (snd (scrapeNBAData e f)) =
      Some (new @ map written (filter (\<lambda>p. field ''sport'' p \<noteq> Some (JStr ''NBA'')) prior))"
    by (simp add: f' stored_players_def field_def written_put_assoc map_of_put_assoc
        dummyPlayers_written[OF d])
  ultimately show ?thesis
    by blast
qed


lemma scrape_utc_noon_one_rich:
  "fst (scrapeNBAData utc_noon one_rich) = Inr (instant_players utc_noon 1762171200000)"
  by (simp add: scrapeNBAData_def write_data_def load_existing_def one_rich_def utc_noon_players
      rich_tom_def not_NBA_def)
     (simp add: utc_noon_def)

section \<open>Properties of the scraper\<close>

text \<open>
  C4, as stated, fails: a kept record is not left as it was, it is written again with
  \<^verbatim>\<open>JSON.stringify\<close>, which changes the text of the whole file and, for a number that the
  text gave beyond the range of a double, the value. On the data file \<open>one_rich\<close> the run
  succeeds and keeps the one player, of sport NFL, whose \<^verbatim>\<open>"salary": 1e400\<close> is stored as
  \<^verbatim>\<open>"salary": null\<close>.
\<close>

theorem kept_record_counterexample:
  "fst (scrapeNBAData utc_noon one_rich) = Inr (instant_players utc_noon 1762171200000) \<and>
   stored_players one_rich = Some [rich_tom] \<and>
   field ''sport'' rich_tom = Some (JStr ''NFL'') \<and>
   stored_players (snd (scrapeNBAData utc_noon one_rich))
     = Some (instant_players utc_noon 1762171200000 @ [rich_tom_written]) \<and>
   rich_tom_written \<noteq> rich_tom"
proof -
  have s: "stored_players one_rich = Some [rich_tom]"
    by (simp add: stored_players_def one_rich_def field_def)
  have k: "filter (\<lambda>p. field ''sport'' p \<noteq> Some (JStr ''NBA'')) [rich_tom] = [rich_tom]"
    by (simp add: field_def rich_tom_def)
  have w: "written rich_tom = rich_tom_written"
    by (simp add: rich_tom_def rich_tom_written_def)
  from stored_after_scrape[OF scrape_utc_noon_one_rich] s k w
  have "stored_players (snd (scrapeNBAData utc_noon one_rich))
      = Some (instant_players utc_noon 1762171200000 @ [rich_tom_written])"
    by simp
  then show ?thesis
    using scrape_utc_noon_one_rich s
    by (simp add: field_def) (simp add: rich_tom_def rich_tom_written_def)
qed

text \<open>
  C4, amended: a successful run replaces the NBA players and nothing else. The stored list
  afterwards is the returned players, all of sport NBA, followed by the prior players
  whose \<^verbatim>\<open>sport\<close> is not \<^verbatim>\<open>"NBA"\<close>, in their order, each as \<^verbatim>\<open>JSON.stringify\<close> writes it: the
  same value, but for \<^verbatim>\<open>null\<close> in the place of a number beyond the range of a double. A
  record without such a number is stored as the value it was.
\<close>

theorem scrape_replaces_only_NBA:
  assumes "fst (scrapeNBAData e f) = Inr new"
  shows "\<exists>prior. stored_players f = Some prior \<and>
           stored_players (snd (scrapeNBAData e f)) =
             Some (new @ map written
                           (filter (\<lambda>p. field ''sport'' p \<noteq> Some (JStr ''NBA'')) prior)) \<and>
           (\<forall>p \<in> set new. field ''sport'' p = Some (JStr ''NBA'')) \<and>
           (\<forall>p \<in> set prior. in_range p \<longrightarrow> written p = p)"
proof -
  from assms have "dummyPlayers e = Inr new"
    unfolding scrape_fst_Inr scrape_Inr by blast
  then have "\<forall>p \<in> set new. field ''sport'' p = Some (JStr ''NBA'')"
    by (rule dummyPlayers_NBA(3))
  with stored_after_scrape[OF assms] show ?thesis
    by (auto simp: written_in_range)
qed

theorem scrape_replaces_only_NBA_witness:
  "fst (scrapeNBAData utc_noon two_sports) = Inr (instant_players utc_noon 1762171200000) \<and>
   in_range tom_brady \<and>
   stored_players (snd (scrapeNBAData utc_noon two_sports)) =
     Some (instant_players utc_noon 1762171200000 @ [tom_brady])"
proof -
  have k: "filter (\<lambda>p. field ''sport'' p \<noteq> Some (JStr ''NBA'')) [tom_brady, old_lebron] = [tom_brady]"
    by (simp add: field_def tom_brady_def old_lebron_def)
  have r: "in_range tom_brady"
    by (simp add: tom_brady_def)
  from scrape_replaces_only_NBA[OF scrape_utc_noon_two_sports]
  obtain prior where p: "stored_players two_sports = Some prior"
    and s: "stored_players (snd (scrapeNBAData utc_noon two_sports)) =
      Some (instant_players utc_noon 1762171200000 @ map written
              (filter (\<lambda>p. field ''sport'' p \<noteq> Some (JStr ''NBA'')) prior))"
    by blast
  from p have "prior = [tom_brady, old_lebron]"
    by (simp add: stored_two_sports)
  with s have "stored_players (snd (scrapeNBAData utc_noon two_sports)) =
      Some (instant_players utc_noon 1762171200000 @ map written [tom_brady])"
    by (simp only: k)
  then show ?thesis
    using scrape_utc_noon_two_sports r by (simp add: written_in_range)
qed




text \<open>
  C8. What a successful run returns does not depend on the data file, and there is no
  upstream source: \<^verbatim>\<open>scrapeNBAData\<close> reads the clock, the random source and the data
  file, and nothing else (the model has no network). It returns two players, id 1
  "LeBron James" and id 2 "Stephen Curry", of sport NBA, each with the metrics points,
  rebounds and assists, in this order.
\<close>

theorem scrape_returns_fixed_players:
  assumes "fst (scrapeNBAData e f) = Inr ps"
  shows "map (field ''id'') ps = [Some (JNum 1), Some (JNum 2)] \<and>
         map (field ''name'') ps = [Some (JStr ''LeBron James''), Some (JStr ''Stephen Curry'')] \<and>
         map (field ''sport'') ps = [Some (JStr ''NBA''), Some (JStr ''NBA'')] \<and>
         map metrics ps = [[''points'', ''rebounds'', ''assists''],
                           [''points'', ''rebounds'', ''assists'']] \<and>
         (\<forall>f' ps'. fst (scrapeNBAData e f') = Inr ps' \<longrightarrow> ps' = ps)"
proof -
  from assms have d: "dummyPlayers e = Inr ps"
    unfolding scrape_fst_Inr scrape_Inr by blast
  have "ps' = ps" if "fst (scrapeNBAData e f') = Inr ps'" for f' ps'
  proof -
    from that have "dummyPlayers e = Inr ps'"
      unfolding scrape_fst_Inr scrape_Inr by blast
    with d show ?thesis by simp
  qed
  then show ?thesis
    using dummyPlayers_shape[OF d] by auto
qed

theorem scrape_returns_fixed_players_witness:
  "fst (scrapeNBAData utc_noon two_sports) = Inr (instant_players utc_noon 1762171200000) \<and>
   map (field ''id'') (instant_players utc_noon 1762171200000) = [Some (JNum 1), Some (JNum 2)] \<and>
   map (field ''name'') (instant_players utc_noon 1762171200000)
     = [Some (JStr ''LeBron James''), Some (JStr ''Stephen Curry'')] \<and>
   map metrics (instant_players utc_noon 1762171200000)
     = [[''points'', ''rebounds'', ''assists''], [''points'', ''rebounds'', ''assists'']] \<and>
   fst (scrapeNBAData utc_noon Absent) = Inr (instant_players utc_noon 1762171200000)"
proof -
  note fixed = scrape_returns_fixed_players[OF scrape_utc_noon_two_sports]
  have "fst (scrapeNBAData utc_noon Absent) = Inr (instant_players utc_noon 1762171200000)"
    by (simp add: scrapeNBAData_def write_data_def load_existing_def utc_noon_players)
       (simp add: utc_noon_def)
  then show ?thesis
    using scrape_utc_noon_two_sports fixed[THEN conjunct1] fixed[THEN conjunct2, THEN conjunct1]
      fixed[THEN conjunct2, THEN conjunct2, THEN conjunct2, THEN conjunct1]
    by - (intro conjI, assumption+)
qed









text \<open>
  A run that succeeds can fail when it is run again, with the same observations, on the
  file it left: the bare number \<^verbatim>\<open>1e400\<close> in the list of players is kept by the first run
  (\<^verbatim>\<open>Infinity.sport\<close> is \<^verbatim>\<open>undefined\<close>) and written as \<^verbatim>\<open>null\<close>, whose \<^verbatim>\<open>sport\<close> the second run
  cannot read.
\<close>

lemma rerun_can_fail:
  "fst (scrapeNBAData utc_noon bare_number) = Inr (instant_players utc_noon 1762171200000) \<and>
   fst (scrapeNBAData utc_noon (snd (scrapeNBAData utc_noon bare_number)))
     = Inl (TypeError ''Cannot read properties of null (reading sport)'')"
proof -
  have "scrapeNBAData utc_noon bare_number =
     (Inr (instant_players utc_noon 1762171200000),
      Parsed (written (JObj (put_assoc ''players''
        (JArr (instant_players utc_noon 1762171200000
               @ filter (\<lambda>p. field ''sport'' p \<noteq> Some (JStr ''NBA'')) [JPosInf]))
        [(''players'', JArr [JPosInf])]))))"
    by (rule scrape_ok)
       (simp_all add: load_existing_def bare_number_def utc_noon_players, simp add: utc_noon_def)
  then have first: "scrapeNBAData utc_noon bare_number =
     (Inr (instant_players utc_noon 1762171200000),
      Parsed (JObj [(''players'', JArr (instant_players utc_noon 1762171200000 @ [JNull]))]))"
    by (simp add: dummyPlayers_written[OF utc_noon_players] field_def)
  have "filter_err not_NBA (instant_players utc_noon 1762171200000 @ [JNull])
      = Inl (TypeError ''Cannot read properties of null (reading sport)'')"
    by (simp add: instant_players_def not_NBA_def player_def)
  then show ?thesis
    by (simp add: first) (simp add: scrapeNBAData_def load_existing_def utc_noon_players)
qed



section \<open>Properties of the routes\<close>

lemma parseInt_examples:
  "parseInt ''7'' = Some 7"
  "parseInt ''9'' = Some 9"
  "parseInt ''  -12px'' = Some (- 12)"
  "parseInt ''0x1F'' = Some 31"
  "parseInt ''abc'' = None"
  by code_simp+

lemma id_matches_Inr:
  "p \<noteq> JNull \<Longrightarrow> id_matches param p = Inr (has_id (parseInt param) p)"
  by (cases p) (simp_all add: id_matches_def has_id_def field_def)

lemma find_err_find:
  "JNull \<notin> set ps \<Longrightarrow> find_err (id_matches param) ps = Inr (find (has_id (parseInt param)) ps)"
  by (induction ps) (auto simp: id_matches_Inr)

lemma has_id_truthy: "has_id n p \<Longrightarrow> \<not> falsy (Some p)"
  by (cases p) (simp_all add: has_id_def field_def strict_eq_num_def)

lemma readable_players:
  "readable f \<Longrightarrow> stored_players f = Some ps \<Longrightarrow>
   (\<exists>d. f = Parsed d \<and> get_prop d ''players'' = Inr (Some (JArr ps)) \<and> JNull \<notin> set ps)"
  by (cases f)
     (auto simp: readable_def stored_players_def field_def get_prop_Some
           split: json.splits option.splits)

lemma get_player_readable:
  assumes "readable f" and "stored_players f = Some ps"
  shows "get_player param f =
     (case find (has_id (parseInt param)) ps of
        Some p \<Rightarrow> Response 200 p
      | None \<Rightarrow> not_found,
      f)"
proof -
  from readable_players[OF assms] obtain d where
    f: "f = Parsed d" and p: "get_prop d ''players'' = Inr (Some (JArr ps))" and n: "JNull \<notin> set ps"
    by blast
  show ?thesis
  proof (cases "find (has_id (parseInt param)) ps")
    case None
    then show ?thesis
      by (simp add: get_player_def f read_data_def p find_err_find[OF n])
  next
    case (Some q)
    then have "has_id (parseInt param) q"
      by (auto simp: find_Some_iff)
    then have "\<not> falsy (Some q)"
      by (rule has_id_truthy)
    with Some show ?thesis
      by (simp add: get_player_def f read_data_def p find_err_find[OF n])
  qed
qed

text \<open>
  C10. On a readable data file, \<^verbatim>\<open>GET /:id\<close> answers with the first stored player whose
  \<^verbatim>\<open>id\<close> is the number \<^verbatim>\<open>parseInt\<close> reads from the parameter, and with 404 "Player not
  found" exactly when no stored player has that id (none has the id NaN). The data file is
  never written, readable or not.
\<close>

theorem get_player_by_id:
  "snd (get_player param f) = f \<and>
   (readable f \<and> stored_players f = Some ps \<longrightarrow>
      (case find (has_id (parseInt param)) ps of
         Some p \<Rightarrow> fst (get_player param f) = Response 200 p
       | None \<Rightarrow> fst (get_player param f) = not_found) \<and>
      (fst (get_player param f) = not_found \<longleftrightarrow> (\<forall>p \<in> set ps. \<not> has_id (parseInt param) p)))"
proof -
  have unchanged: "snd (get_player param f) = f"
    by (simp add: get_player_def split: sum.splits)
  have "(case find (has_id (parseInt param)) ps of
           Some p \<Rightarrow> fst (get_player param f) = Response 200 p
         | None \<Rightarrow> fst (get_player param f) = not_found) \<and>
        (fst (get_player param f) = not_found \<longleftrightarrow> (\<forall>p \<in> set ps. \<not> has_id (parseInt param) p))"
    if "readable f" and "stored_players f = Some ps"
  proof (cases "find (has_id (parseInt param)) ps")
    case None
    then have "\<forall>p \<in> set ps. \<not> has_id (parseInt param) p"
      by (simp add: find_None_iff)
    with None show ?thesis
      by (simp add: get_player_readable[OF that])
  next
    case (Some q)
    then have "q \<in> set ps" and "has_id (parseInt param) q"
      by (auto simp: find_Some_iff)
    with Some show ?thesis
      by (auto simp: get_player_readable[OF that] not_found_def)
  qed
  with unchanged show ?thesis
    by blast
qed

theorem get_player_by_id_witness:
  "readable two_sports \<and> stored_players two_sports = Some [tom_brady, old_lebron] \<and>
   get_player ''7'' two_sports = (Response 200 tom_brady, two_sports) \<and>
   get_player ''9'' two_sports = (not_found, two_sports)"
proof -
  have r: "readable two_sports"
    by (simp add: readable_def two_sports_def field_def tom_brady_def old_lebron_def)
  have s: "stored_players two_sports = Some [tom_brady, old_lebron]"
    by (simp add: stored_players_def two_sports_def field_def)
  have 7: "find (has_id (parseInt ''7'')) [tom_brady, old_lebron] = Some tom_brady"
    by (simp add: parseInt_examples has_id_def field_def strict_eq_num_def tom_brady_def)
  have 9: "find (has_id (parseInt ''9'')) [tom_brady, old_lebron] = None"
    by (simp add: parseInt_examples has_id_def field_def strict_eq_num_def tom_brady_def
        old_lebron_def)
  have "get_player ''7'' two_sports = (Response 200 tom_brady, two_sports)"
    using r s get_player_by_id[of "''7''" two_sports "[tom_brady, old_lebron]", unfolded 7]
    by (simp add: prod_eq_iff)
  moreover have "get_player ''9'' two_sports = (not_found, two_sports)"
    using r s get_player_by_id[of "''9''" two_sports "[tom_brady, old_lebron]", unfolded 9]
    by (simp add: prod_eq_iff)
  ultimately show ?thesis
    using r s by simp
qed

text \<open>
  \<open>readable\<close> is the right reading of "a data file the route can read": these are the
  files on which \<^verbatim>\<open>GET /:id\<close> answers no parameter with its 500 "Error reading player data".
\<close>

lemma parseInt_x: "parseInt ''x'' = None"
  by code_simp

lemma find_err_null:
  "JNull \<in> set ps \<Longrightarrow> \<exists>err. find_err (id_matches ''x'') ps = Inl err"
proof (induction ps)
  case Nil
  then show ?case by simp
next
  case (Cons p ps)
  show ?case
  proof (cases "p = JNull")
    case True
    then show ?thesis by (simp add: id_matches_def)
  next
    case False
    with Cons have "\<exists>err. find_err (id_matches ''x'') ps = Inl err"
      by simp
    with False show ?thesis
      by (auto simp: id_matches_Inr has_id_def parseInt_x strict_eq_num_def split: option.splits json.splits)
  qed
qed

lemma unreadable_500:
  assumes "\<not> readable f"
  shows "status (fst (get_player ''x'' f)) = 500"
proof (cases f)
  case Absent
  then show ?thesis by (simp add: get_player_def read_data_def read_error_def)
next
  case (Unparseable m)
  then show ?thesis by (simp add: get_player_def read_data_def read_error_def)
next
  case (Parsed d)
  have "\<exists>err. bind (get_prop d ''players'') (players_find ''x'') = Inl err"
  proof (cases "get_prop d ''players''")
    case (Inl err)
    then show ?thesis by simp
  next
    case (Inr v)
    show ?thesis
    proof (cases "\<exists>ps. v = Some (JArr ps)")
      case True
      then obtain ps where v: "v = Some (JArr ps)"
        by blast
      with Inr Parsed assms have "JNull \<in> set ps"
        by (cases d) (auto simp: readable_def field_def)
      from find_err_null[OF this] v Inr show ?thesis by simp
    next
      case False
      then have "\<exists>err. players_find ''x'' v = Inl err"
        by (cases "(''x'', v)" rule: players_find.cases) auto
      with Inr show ?thesis by simp
    qed
  qed
  with Parsed show ?thesis
    by (auto simp: get_player_def read_data_def read_error_def)
qed

lemma readable_iff_no_500:
  "readable f \<longleftrightarrow> (\<forall>param. status (fst (get_player param f)) \<noteq> 500)"
proof
  assume r: "readable f"
  then obtain ps where ps: "stored_players f = Some ps"
    by (cases f) (auto simp: readable_def stored_players_def split: option.splits json.splits)
  show "\<forall>param. status (fst (get_player param f)) \<noteq> 500"
    by (simp add: get_player_readable[OF r ps] not_found_def split: option.splits)
next
  assume "\<forall>param. status (fst (get_player param f)) \<noteq> 500"
  then show "readable f"
    using unreadable_500[of f] by blast
qed

lemma post_nba_run:
  "post_nba e f = (trigger_answer (fst (scrapeNBAData e f)), snd (scrapeNBAData e f))"
  by (simp add: post_nba_def trigger_answer_def split: prod.splits sum.splits)

lemma post_nba_corrupt:
  "post_nba e corrupt = (scraper_error (SyntaxError ''Unexpected end of JSON input''), corrupt)"
  by (simp add: post_nba_run corrupt_def scrapeNBAData_def load_existing_def trigger_answer_def)

lemma post_nba_two_sports:
  "fst (post_nba utc_noon two_sports) = scraping_completed"
  by (simp add: post_nba_run scrape_utc_noon_two_sports trigger_answer_def)

lemma serve_Cons:
  "serve (r # rs) f =
     (fst (handle r f) # fst (serve rs (snd (handle r f))), snd (serve rs (snd (handle r f))))"
  by (simp split: prod.splits)

lemma run_all_Cons:
  "run_all (e # es) f =
     (fst (scrapeNBAData e f) # fst (run_all es (snd (scrapeNBAData e f))),
      snd (run_all es (snd (scrapeNBAData e f))))"
  by (simp split: prod.splits)

lemma idle_status_fields:
  "run_state idle_status = Some (JStr ''idle'')" "last_run idle_status = Some JNull"
  by (simp_all add: idle_status_def run_state_def last_run_def field_def)

lemma serve_triggers:
  "serve (map PostNba es) f = (map trigger_answer (fst (run_all es f)), snd (run_all es f)) \<and>
   length (fst (run_all es f)) = length es"
proof (induction es arbitrary: f)
  case Nil
  show ?case by simp
next
  case (Cons e es)
  show ?case
    using Cons.IH[of "snd (scrapeNBAData e f)"]
    by (simp add: post_nba_run serve_Cons run_all_Cons del: serve.simps run_all.simps)
qed







text \<open>
  C3, as stated, fails: the status route does not record runs. After a run that completed
  and after a run that failed it gives the same answer, \<^verbatim>\<open>idle\<close> with no last run.
\<close>

theorem status_counterexample:
  "fst (post_nba utc_noon two_sports) = scraping_completed \<and>
   status (fst (post_nba utc_noon corrupt)) = 500 \<and>
   fst (get_status (snd (post_nba utc_noon two_sports)))
     = fst (get_status (snd (post_nba utc_noon corrupt))) \<and>
   run_state (fst (get_status (snd (post_nba utc_noon corrupt)))) = Some (JStr ''idle'') \<and>
   last_run (fst (get_status (snd (post_nba utc_noon corrupt)))) = Some JNull"
  by (simp add: post_nba_two_sports post_nba_corrupt get_status_def idle_status_fields
      scraper_error_def)

text \<open>
  C3, amended: after every sequence of requests, on every data file, the status route
  answers HTTP 200 with the constant \<^verbatim>\<open>{ nba: { status: 'idle', lastRun: null } }\<close>, and
  leaves the data file as it is. It never reports a running run, and it reports neither
  the outcome of a run nor failure counts.
\<close>

theorem status_always_idle:
  "get_status (snd (serve reqs f)) = (idle_status, snd (serve reqs f)) \<and>
   status idle_status = 200 \<and>
   run_state idle_status = Some (JStr ''idle'') \<and>
   last_run idle_status = Some JNull"
  by (simp add: get_status_def idle_status_fields) (simp add: idle_status_def)


section \<open>Properties of the rate limiter\<close>

lemma release_next_config [simp]:
  "global_floor (release_next t og l) = global_floor l"
  "crawl_delay (release_next t og l) = crawl_delay l"
  by (simp_all add: release_next_def split: list.splits)

lemma limiter_step_delay [simp]:
  "effective_delay (limiter_step l ev) og' = effective_delay l og'"
  by (cases "(l, ev)" rule: limiter_step.cases) (simp_all add: effective_delay_def)

lemma spaced_le_last:
  assumes "sorted_wrt (\<lambda>a b. int d \<le> b - a) ts" and "x \<in> set ts"
  shows "x \<le> last ts"
  using assms
proof (induction ts rule: rev_induct)
  case Nil
  then show ?case by simp
next
  case (snoc y ys)
  then show ?case
    by (auto simp: sorted_wrt_append)
qed

text \<open>
  The invariant of one origin: its releases are spaced by the effective delay, and the
  limiter remembers the last of them.
\<close>

lemma release_next_spaced:
  assumes "sorted_wrt (\<lambda>a b. int (effective_delay l og') \<le> b - a) (release_times og' l)"
    and "last_release l og' = (if release_times og' l = [] then None else Some (last (release_times og' l)))"
  shows "sorted_wrt (\<lambda>a b. int (effective_delay l og') \<le> b - a) (release_times og' (release_next t og l)) \<and>
         last_release (release_next t og l) og' =
           (if release_times og' (release_next t og l) = [] then None
            else Some (last (release_times og' (release_next t og l))))"
proof (cases "waiting l og")
  case Nil
  with assms show ?thesis
    by (simp add: release_next_def)
next
  case (Cons c cs)
  show ?thesis
  proof (cases "permitted l og t \<and> og' = og")
    case False
    with assms Cons show ?thesis
      by (auto simp: release_next_def release_times_def)
  next
    case True
    then have og: "og' = og" and p: "permitted l og t"
      by simp_all
    have times: "release_times og (release_next t og l) = release_times og l @ [t]"
      using Cons p by (simp add: release_next_def release_times_def)
    have last: "last_release (release_next t og l) og = Some t"
      using Cons p by (simp add: release_next_def)
    have "int (effective_delay l og) \<le> t - x" if "x \<in> set (release_times og l)" for x
    proof -
      from that have ne: "release_times og l \<noteq> []"
        by auto
      with assms(2) og have "last_release l og = Some (last (release_times og l))"
        by simp
      with p have "int (effective_delay l og) \<le> t - last (release_times og l)"
        by (simp add: permitted_def)
      moreover have "x \<le> last (release_times og l)"
        using assms(1) that unfolding og by (rule spaced_le_last)
      ultimately show ?thesis
        by linarith
    qed
    with assms(1) show ?thesis
      unfolding og by (simp add: times last sorted_wrt_append)
  qed
qed

lemma limiter_step_spaced:
  assumes "sorted_wrt (\<lambda>a b. int (effective_delay l og') \<le> b - a) (release_times og' l)"
    and "last_release l og' = (if release_times og' l = [] then None else Some (last (release_times og' l)))"
  shows "sorted_wrt (\<lambda>a b. int (effective_delay l og') \<le> b - a) (release_times og' (limiter_step l ev)) \<and>
         last_release (limiter_step l ev) og' =
           (if release_times og' (limiter_step l ev) = [] then None
            else Some (last (release_times og' (limiter_step l ev))))"
proof (cases "(l, ev)" rule: limiter_step.cases)
  case (1 l0 t og c)
  let ?l = "l\<lparr>waiting := (waiting l)(og := waiting l og @ [c])\<rparr>"
  have "sorted_wrt (\<lambda>a b. int (effective_delay ?l og') \<le> b - a) (release_times og' ?l)"
    and "last_release ?l og' = (if release_times og' ?l = [] then None else Some (last (release_times og' ?l)))"
    using assms by (simp_all add: effective_delay_def release_times_def)
  then have "sorted_wrt (\<lambda>a b. int (effective_delay ?l og') \<le> b - a) (release_times og' (release_next t og ?l)) \<and>
         last_release (release_next t og ?l) og' =
           (if release_times og' (release_next t og ?l) = [] then None
            else Some (last (release_times og' (release_next t og ?l))))"
    by (rule release_next_spaced)
  with 1 show ?thesis
    by (simp add: effective_delay_def)
next
  case (2 l0 t og)
  with release_next_spaced[OF assms, of t og] show ?thesis
    by simp
qed

lemma limiter_run_spaced:
  assumes "sorted_wrt (\<lambda>a b. int (effective_delay l og) \<le> b - a) (release_times og l)"
    and "last_release l og = (if release_times og l = [] then None else Some (last (release_times og l)))"
  shows "sorted_wrt (\<lambda>a b. int (effective_delay l og) \<le> b - a) (release_times og (limiter_run l evs))"
  using assms
proof (induction evs arbitrary: l)
  case Nil
  then show ?case by (simp add: limiter_run_def)
next
  case (Cons ev evs)
  from limiter_step_spaced[OF Cons.prems, of ev]
  have "sorted_wrt (\<lambda>a b. int (effective_delay (limiter_step l ev) og) \<le> b - a)
          (release_times og (limiter_run (limiter_step l ev) evs))"
    by (intro Cons.IH) simp_all
  then show ?case
    by (simp add: limiter_run_def)
qed

lemma release_next_fifo:
  "released_callers og' (release_next t og l) @ waiting (release_next t og l) og'
     = released_callers og' l @ waiting l og'"
  by (cases "waiting l og") (auto simp: release_next_def released_callers_def)

lemma limiter_step_fifo:
  "released_callers og (limiter_step l ev) @ waiting (limiter_step l ev) og
     = released_callers og l @ waiting l og @ arrivals og [ev]"
  by (cases "(l, ev)" rule: limiter_step.cases)
     (simp_all add: release_next_fifo, simp_all add: released_callers_def)

lemma arrivals_Cons: "arrivals og (ev # evs) = arrivals og [ev] @ arrivals og evs"
  by (cases "(og, [ev])" rule: arrivals.cases) simp_all

lemma limiter_run_fifo:
  "released_callers og (limiter_run l evs) @ waiting (limiter_run l evs) og
     = released_callers og l @ waiting l og @ arrivals og evs"
proof (induction evs arbitrary: l)
  case Nil
  show ?case by (simp add: limiter_run_def)
next
  case (Cons ev evs)
  have "released_callers og (limiter_run (limiter_step l ev) evs)
          @ waiting (limiter_run (limiter_step l ev) evs) og
      = (released_callers og (limiter_step l ev) @ waiting (limiter_step l ev) og)
          @ arrivals og evs"
    by (simp add: Cons.IH)
  then show ?case
    by (simp add: limiter_step_fifo limiter_run_def arrivals_Cons[of og ev evs])
qed

text \<open>
  C7. Whatever callers ask and whenever the limiter wakes up, no two releases for an origin
  are closer together than its effective delay, the maximum of its crawl-delay and the
  global floor; and the callers released for an origin, followed by those still waiting,
  are the callers that asked, in the order in which they asked.
\<close>

theorem limiter_spacing_and_fifo:
  "sorted_wrt (\<lambda>t1 t2. int (max (cd og) fl) \<le> t2 - t1)
     (release_times og (limiter_run (new_limiter fl cd) evs)) \<and>
   released_callers og (limiter_run (new_limiter fl cd) evs)
     @ waiting (limiter_run (new_limiter fl cd) evs) og
   = arrivals og evs"
proof -
  have "sorted_wrt (\<lambda>a b. int (effective_delay (new_limiter fl cd) og) \<le> b - a)
          (release_times og (limiter_run (new_limiter fl cd) evs))"
    by (rule limiter_run_spaced) (simp_all add: new_limiter_def release_times_def)
  moreover have "effective_delay (new_limiter fl cd) og = max (cd og) fl"
    by (simp add: effective_delay_def new_limiter_def)
  ultimately show ?thesis
    by (simp add: limiter_run_fifo) (simp add: new_limiter_def released_callers_def)
qed

text \<open>
  A run of the limiter: crawl-delay 2 s, floor 1 s; three callers ask at 0 s, 0.5 s and
  1 s; the limiter wakes at 1.5 s, 2 s and 4.5 s. They are released at 0 s, 2 s and 4.5 s.
\<close>

lemma limiter_example:
  "released (limiter_run (new_limiter 1000 (\<lambda>og. 2000))
     [(0, Acquire ''covers.com'' 1), (500, Acquire ''covers.com'' 2),
      (1000, Acquire ''covers.com'' 3), (1500, Wake ''covers.com''),
      (2000, Wake ''covers.com''), (4500, Wake ''covers.com'')])
   = [(''covers.com'', 1, 0), (''covers.com'', 2, 2000), (''covers.com'', 3, 4500)]"
  by (simp add: limiter_run_def new_limiter_def release_next_def permitted_def effective_delay_def)


section \<open>The dates of a series\<close>

lemma instant_series_nth:
  "j < 31 \<Longrightarrow>
   point_date (instant_series e c mn mx d ! j)
     = split_T_first (iso_string (UTC e (LocalTime e c - int (30 - j) * msPerDay)))"
  by (simp add: instant_series_def point_date_def stat_point_def field_def del: upt_Suc)

lemma instant_series_length: "length (instant_series e c mn mx d) = 31"
  by (simp add: instant_series_def)

lemma repeated_date_not_increasing:
  assumes "Suc j < length pts" and "point_date (pts ! j) = point_date (pts ! Suc j)"
  shows "\<not> dates_increasing pts"
proof
  assume "dates_increasing pts"
  then have "sorted_wrt (<) (map point_date pts)"
    by (simp add: dates_increasing_def)
  then have "map point_date pts ! j < map point_date pts ! Suc j"
    using assms(1) by (intro sorted_wrt_nth_less[of "(<)" _ j "Suc j"]) simp_all
  with assms show False
    by simp
qed

lemma london_players: "dummyPlayers london = Inr (instant_players london 1744241400000)"
  by (rule dummyPlayers_at_instant) (simp_all add: london_def UTC_def LocalTime_def msPerDay_def)

lemma new_york_players: "dummyPlayers new_york = Inr (instant_players new_york 1762734600000)"
  by (rule dummyPlayers_at_instant) (simp_all add: new_york_def UTC_def LocalTime_def msPerDay_def)

lemma scrape_london:
  "series_of ''points'' (hd (returned (fst (scrapeNBAData london Absent))))
     = instant_series london 1744241400000 25 35 0"
proof -
  have "storage london = Written"
    by (simp add: london_def)
  then have "fst (scrapeNBAData london Absent) = Inr (instant_players london 1744241400000)"
    by (simp add: scrapeNBAData_def write_data_def load_existing_def london_players)
  then show ?thesis
    by (simp add: returned_def instant_players_def)
qed

lemma scrape_new_york:
  "series_of ''points'' (hd (returned (fst (scrapeNBAData new_york Absent))))
     = instant_series new_york 1762734600000 25 35 0"
proof -
  have "storage new_york = Written"
    by (simp add: new_york_def)
  then have "fst (scrapeNBAData new_york Absent) = Inr (instant_players new_york 1762734600000)"
    by (simp add: scrapeNBAData_def write_data_def load_existing_def new_york_players)
  then show ?thesis
    by (simp add: returned_def instant_players_def)
qed

lemma london_instants:
  "UTC london (LocalTime london 1744241400000 - int (30 - 19) * msPerDay) = 1743294600000"
  "UTC london (LocalTime london 1744241400000 - int (30 - 20) * msPerDay) = 1743377400000"
  by (simp_all add: london_def UTC_def LocalTime_def msPerDay_def)

lemma london_days:
  "split_T_first (iso_string 1743294600000) = ''2025-03-30''"
  "split_T_first (iso_string 1743377400000) = ''2025-03-30''"
  by code_simp+

lemma new_york_instants:
  "UTC new_york (LocalTime new_york 1762734600000 - int (30 - 0) * msPerDay) = 1760139000000"
  "UTC new_york (LocalTime new_york 1762734600000 - int (30 - 22) * msPerDay) = 1762039800000"
  "UTC new_york (LocalTime new_york 1762734600000 - int (30 - 23) * msPerDay) = 1762129800000"
  "UTC new_york (LocalTime new_york 1762734600000 - int (30 - 30) * msPerDay) = 1762734600000"
  by (simp_all add: new_york_def UTC_def LocalTime_def msPerDay_def)

lemma new_york_days:
  "split_T_first (iso_string 1760139000000) = ''2025-10-10''"
  "split_T_first (iso_string 1762039800000) = ''2025-11-01''"
  "split_T_first (iso_string 1762129800000) = ''2025-11-03''"
  "split_T_first (iso_string 1762734600000) = ''2025-11-10''"
  by code_simp+

text \<open>
  C5 fails where the time zone changes its offset. \<^verbatim>\<open>setDate\<close> keeps the local time of
  day and \<^verbatim>\<open>toISOString\<close> prints the UTC date: on the host \<open>london\<close>, at half past midnight,
  the local days March 30th (00:30 GMT) and March 31st (00:30 BST, which is 23:30 UTC of
  the 30th) give the same date string, so the twentieth and the twenty-first point of the
  stored series carry the date 2025-03-30.
\<close>

theorem london_series_repeats_a_date:
  "length (series_of ''points'' (hd (returned (fst (scrapeNBAData london Absent))))) = 31 \<and>
   point_date (series_of ''points'' (hd (returned (fst (scrapeNBAData london Absent)))) ! 19)
     = ''2025-03-30'' \<and>
   point_date (series_of ''points'' (hd (returned (fst (scrapeNBAData london Absent)))) ! 20)
     = ''2025-03-30'' \<and>
   \<not> dates_increasing (series_of ''points'' (hd (returned (fst (scrapeNBAData london Absent)))))"
proof -
  let ?s = "instant_series london 1744241400000 25 35 0"
  have a: "point_date (?s ! 19) = ''2025-03-30''"
    using instant_series_nth[of 19 london 1744241400000 25 35 0]
    by (simp only: london_instants london_days)
  have b: "point_date (?s ! 20) = ''2025-03-30''"
    using instant_series_nth[of 20 london 1744241400000 25 35 0]
    by (simp only: london_instants london_days)
  have "\<not> dates_increasing ?s"
    by (rule repeated_date_not_increasing[of 19]) (simp_all add: instant_series_length a b)
  with a b show ?thesis
    by (simp add: scrape_london instant_series_length)
qed

text \<open>
  C9 fails in the same way. On the host \<open>new_york\<close>, at 19:30 local time, the series has
  31 points, from 2025-10-10 to the run's UTC date 2025-11-10: 32 calendar days, of which
  2025-11-02, the day the clocks went back, has no point.
\<close>

theorem new_york_series_skips_a_date:
  "length (series_of ''points'' (hd (returned (fst (scrapeNBAData new_york Absent))))) = 31 \<and>
   point_date (series_of ''points'' (hd (returned (fst (scrapeNBAData new_york Absent)))) ! 0)
     = ''2025-10-10'' \<and>
   point_date (series_of ''points'' (hd (returned (fst (scrapeNBAData new_york Absent)))) ! 22)
     = ''2025-11-01'' \<and>
   point_date (series_of ''points'' (hd (returned (fst (scrapeNBAData new_york Absent)))) ! 23)
     = ''2025-11-03'' \<and>
   point_date (series_of ''points'' (hd (returned (fst (scrapeNBAData new_york Absent)))) ! 30)
     = ''2025-11-10''"
proof -
  let ?s = "instant_series new_york 1762734600000 25 35 0"
  have "point_date (?s ! 0) = ''2025-10-10''"
    using instant_series_nth[of 0 new_york 1762734600000 25 35 0]
    by (simp only: new_york_instants new_york_days)
  moreover have "point_date (?s ! 22) = ''2025-11-01''"
    using instant_series_nth[of 22 new_york 1762734600000 25 35 0]
    by (simp only: new_york_instants new_york_days)
  moreover have "point_date (?s ! 23) = ''2025-11-03''"
    using instant_series_nth[of 23 new_york 1762734600000 25 35 0]
    by (simp only: new_york_instants new_york_days)
  moreover have "point_date (?s ! 30) = ''2025-11-10''"
    using instant_series_nth[of 30 new_york 1762734600000 25 35 0]
    by (simp only: new_york_instants new_york_days)
  ultimately show ?thesis
    by (simp add: scrape_new_york instant_series_length)
qed


section \<open>What holds of every series\<close>

text \<open>
  A call of \<^verbatim>\<open>generateHistoricalData\<close> that returns gives 31 points, and with draws in
  \<open>[0, 1)\<close> and whole bounds \<open>0 \<le> min \<le> max\<close> every value lies between the bounds
  (the upper bound is reached when the value rounds up to it).
\<close>

lemma toFixed1_bounds:
  fixes mn mx :: int
  assumes "0 \<le> r" "r < 1" "0 \<le> mn" "mn \<le> mx"
  shows "of_int mn \<le> toFixed1 (r * (of_int mx - of_int mn) + of_int mn) \<and>
         toFixed1 (r * (of_int mx - of_int mn) + of_int mn) \<le> of_int mx"
proof -
  define x :: rat where "x = r * (of_int mx - of_int mn) + of_int mn"
  have d: "(0::rat) \<le> of_int mx - of_int mn" using assms(4) by simp
  have "0 \<le> r * (of_int mx - of_int mn)"
    using assms(1) d by (rule mult_nonneg_nonneg)
  then have lo: "of_int mn \<le> x" by (simp add: x_def)
  have "r * (of_int mx - of_int mn) \<le> 1 * (of_int mx - of_int mn)"
    using assms(2) d by (intro mult_right_mono) simp_all
  then have hi: "x \<le> of_int mx" by (simp add: x_def)
  have "(0::rat) \<le> of_int mn" using assms(3) by simp
  with lo have x0: "\<not> x < 0" by linarith
  have f: "toFixed1 x = of_int \<lfloor>x * 10 + 1 / 2\<rfloor> / 10"
    using x0 by (simp add: toFixed1_def)
  have "of_int (10 * mn) \<le> x * 10 + 1 / 2" using lo by simp
  then have a: "10 * mn \<le> \<lfloor>x * 10 + 1 / 2\<rfloor>" by (simp only: le_floor_iff)
  have "x * 10 + 1 / 2 < of_int (10 * mx + 1)" using hi by simp
  then have "\<lfloor>x * 10 + 1 / 2\<rfloor> < 10 * mx + 1" by (simp only: floor_less_iff)
  then have b: "\<lfloor>x * 10 + 1 / 2\<rfloor> \<le> 10 * mx" by linarith
  have a0: "(of_int (10 * mn) :: rat) \<le> of_int \<lfloor>x * 10 + 1 / 2\<rfloor>"
    using a by (simp only: of_int_le_iff)
  have a': "(of_int (10 * mn) :: rat) / 10 \<le> of_int \<lfloor>x * 10 + 1 / 2\<rfloor> / 10"
    using a0 by (rule divide_right_mono) simp
  have b0: "(of_int \<lfloor>x * 10 + 1 / 2\<rfloor> :: rat) \<le> of_int (10 * mx)"
    using b by (simp only: of_int_le_iff)
  have b': "(of_int \<lfloor>x * 10 + 1 / 2\<rfloor> :: rat) / 10 \<le> of_int (10 * mx) / 10"
    using b0 by (rule divide_right_mono) simp
  have "of_int mn \<le> toFixed1 x \<and> toFixed1 x \<le> of_int mx"
    unfolding f using a' b' by simp
  then show ?thesis by (simp only: x_def)
qed

lemma loop_body_value:
  "loop_body e today mn mx i s = Inr pt \<Longrightarrow>
   point_value pt = toFixed1 (random e (draws s) * (mx - mn) + mn)"
  by (auto simp: loop_body_def Let_def point_value_def stat_point_def field_def split: sum.splits)

lemma gen_loop_values:
  assumes "gen_loop e today mn mx n s data = Inr (res, s')"
    and "pt \<in> set res"
    and "\<And>q. q \<in> set data \<Longrightarrow> Q (point_value q)"
    and "\<And>k. Q (toFixed1 (random e k * (mx - mn) + mn))"
  shows "Q (point_value pt)"
  using assms(1,3)
proof (induction n arbitrary: s data)
  case 0
  with assms(2) show ?case by simp
next
  case (Suc n)
  from Suc.prems(1) obtain p where
    p: "loop_body e today mn mx n s = Inr p"
    and rest: "gen_loop e today mn mx n \<lparr>reads = reads s + 1, draws = draws s + 1\<rparr> (data @ [p])
                 = Inr (res, s')"
    by (auto split: sum.splits)
  have "Q (point_value q)" if "q \<in> set (data @ [p])" for q
    using that Suc.prems(2) loop_body_value[OF p] assms(4) by auto
  with rest show ?case
    by (rule Suc.IH)
qed

lemma generate_values_in_range:
  fixes mn mx :: int
  assumes "generateHistoricalData e (of_int mn) (of_int mx) s = Inr (res, s')"
    and "\<And>k. 0 \<le> random e k \<and> random e k < 1"
    and "0 \<le> mn" and "mn \<le> mx"
  shows "length res = 31"
    and "pt \<in> set res \<Longrightarrow> of_int mn \<le> point_value pt \<and> point_value pt \<le> of_int mx"
proof -
  show "length res = 31"
    using assms(1) by (rule generate_length)
  assume pt: "pt \<in> set res"
  have run: "gen_loop e (clock e (reads s)) (of_int mn) (of_int mx) 31
          \<lparr>reads = reads s + 1, draws = draws s\<rparr> [] = Inr (res, s')"
    using assms(1) by (simp add: generateHistoricalData_def Let_def)
  have range: "of_int mn \<le> toFixed1 (random e k * (of_int mx - of_int mn) + of_int mn) \<and>
        toFixed1 (random e k * (of_int mx - of_int mn) + of_int mn) \<le> of_int mx" for k
    using assms(2)[of k] assms(3,4) by (intro toFixed1_bounds) simp_all
  show "of_int mn \<le> point_value pt \<and> point_value pt \<le> of_int mx"
    by (rule gen_loop_values[OF run pt, where Q = "\<lambda>v. of_int mn \<le> v \<and> v \<le> of_int mx"])
       (simp, rule range)
qed

text \<open>
  Where the time zone keeps one offset and the run reads one instant \<open>c\<close>, the dates of a
  series are the UTC dates of the instants \<open>c - 30\<close> days, ..., \<open>c - 1\<close> day, \<open>c\<close>, which
  fall on the 31 consecutive days that end with the day of \<open>c\<close>.
\<close>

lemma Day_back: "Day (t - i * msPerDay) = Day t - i"
  by (simp add: Day_def msPerDay_def)

lemma fixed_offset_series:
  assumes tz: "\<And>t b. LocalTZA e t b = off"
    and c: "\<And>k. clock e k = c"
    and r: "\<bar>c\<bar> + 30 * msPerDay \<le> 8640000000000000"
  shows "generateHistoricalData e mn mx s =
           Inr (instant_series e c mn mx (draws s), \<lparr>reads = reads s + 32, draws = draws s + 31\<rparr>)"
    and "j < 31 \<Longrightarrow> point_date (instant_series e c mn mx d ! j)
           = split_T_first (iso_string (c - int (30 - j) * msPerDay))"
    and "Day (c - int (30 - j) * msPerDay) = Day c - int (30 - j)"
proof -
  have inst: "UTC e (LocalTime e c - int i * msPerDay) = c - int i * msPerDay" for i
    by (simp add: UTC_def LocalTime_def tz)
  have "\<bar>c - int i * msPerDay\<bar> \<le> 8640000000000000" if "i \<le> 30" for i
  proof -
    have "int i * msPerDay \<le> 30 * msPerDay" "0 \<le> int i * msPerDay"
      using that by (simp_all add: msPerDay_def)
    with r show ?thesis by linarith
  qed
  then show "generateHistoricalData e mn mx s =
           Inr (instant_series e c mn mx (draws s), \<lparr>reads = reads s + 32, draws = draws s + 31\<rparr>)"
    by (intro generate_at_instant c) (simp add: inst)
  show "j < 31 \<Longrightarrow> point_date (instant_series e c mn mx d ! j)
           = split_T_first (iso_string (c - int (30 - j) * msPerDay))"
    by (simp only: instant_series_nth inst)
  show "Day (c - int (30 - j) * msPerDay) = Day c - int (30 - j)"
    by (rule Day_back)
qed


end
